theory Spec2Isabelle
  imports Main "HOL-Library.Word" "HOL-Library.AList" "HOL-Library.Multiset"
begin

unbundle bit_operations_syntax

text \<open>
  The Merkle tree of the client, the diff of two trees on the client and on the server, the
  change detector with its loop prevention, and the sync cycle of the file-sync system, as
  functions on explicit states. A handler runs to its end before the next one starts, except
  \<^verbatim>\<open>performSync\<close>, which is cut at its first \<^verbatim>\<open>await\<close>. What a handler reads from its
  surroundings is an argument: the clock, the answer of the server, the outcome of a download.
  What it sends to the server is appended to a list of requests.
\<close>

section \<open>The hash primitive\<close>

text \<open>
  Every hash of the repository is
  \<^verbatim>\<open>crypto.createHash('sha256').update(x).digest('hex')\<close>: SHA-256 (FIPS 180-4) of
  the bytes of \<open>x\<close>, printed as 64 lower-case hexadecimal digits. A \<open>string\<close> is the
  list of the bytes. The round constants and the initial state are written in decimal.
\<close>

type_synonym u32 = "32 word"

type_synonym byte = "8 word"

definition K256 :: "u32 list" where
  "K256 = [
     1116352408, 1899447441, 3049323471, 3921009573, 961987163, 1508970993,
     2453635748, 2870763221, 3624381080, 310598401, 607225278, 1426881987,
     1925078388, 2162078206, 2614888103, 3248222580, 3835390401, 4022224774,
     264347078, 604807628, 770255983, 1249150122, 1555081692, 1996064986,
     2554220882, 2821834349, 2952996808, 3210313671, 3336571891, 3584528711,
     113926993, 338241895, 666307205, 773529912, 1294757372, 1396182291,
     1695183700, 1986661051, 2177026350, 2456956037, 2730485921, 2820302411,
     3259730800, 3345764771, 3516065817, 3600352804, 4094571909, 275423344,
     430227734, 506948616, 659060556, 883997877, 958139571, 1322822218,
     1537002063, 1747873779, 1955562222, 2024104815, 2227730452, 2361852424,
     2428436474, 2756734187, 3204031479, 3329325298]"

definition H256 :: "u32 list" where
  "H256 = [1779033703, 3144134277, 1013904242, 2773480762,
           1359893119, 2600822924, 528734635, 1541459225]"

definition Ch :: "u32 \<Rightarrow> u32 \<Rightarrow> u32 \<Rightarrow> u32" where
  "Ch x y z = (x AND y) XOR (NOT x AND z)"

definition Maj :: "u32 \<Rightarrow> u32 \<Rightarrow> u32 \<Rightarrow> u32" where
  "Maj x y z = (x AND y) XOR (x AND z) XOR (y AND z)"

definition Sigma0 :: "u32 \<Rightarrow> u32" where
  "Sigma0 x = word_rotr 2 x XOR word_rotr 13 x XOR word_rotr 22 x"

definition Sigma1 :: "u32 \<Rightarrow> u32" where
  "Sigma1 x = word_rotr 6 x XOR word_rotr 11 x XOR word_rotr 25 x"

definition sigma0 :: "u32 \<Rightarrow> u32" where
  "sigma0 x = word_rotr 7 x XOR word_rotr 18 x XOR drop_bit 3 x"

definition sigma1 :: "u32 \<Rightarrow> u32" where
  "sigma1 x = word_rotr 17 x XOR word_rotr 19 x XOR drop_bit 10 x"

text \<open>The message schedule, newest word first: 48 words are added to the 16 of a block.\<close>

fun schedule :: "nat \<Rightarrow> u32 list \<Rightarrow> u32 list" where
  "schedule 0 ws = ws"
| "schedule (Suc n) ws =
     schedule n ((sigma1 (ws ! 1) + ws ! 6 + sigma0 (ws ! 14) + ws ! 15) # ws)"

fun round256 :: "u32 list \<Rightarrow> u32 \<times> u32 \<Rightarrow> u32 list" where
  "round256 [a, b, c, d, e, f, g, h] (k, w) =
     (let t1 = h + Sigma1 e + Ch e f g + k + w;
          t2 = Sigma0 a + Maj a b c
      in [t1 + t2, a, b, c, d + t1, e, f, g])"
| "round256 s _ = s"

definition compress :: "u32 list \<Rightarrow> u32 list \<Rightarrow> u32 list" where
  "compress hs block =
     map2 (+) hs (foldl round256 hs (zip K256 (rev (schedule 48 (rev block)))))"

definition be32 :: "byte list \<Rightarrow> u32" where
  "be32 bs = foldl (\<lambda>acc b. push_bit 8 acc OR ucast b) 0 bs"

fun chunks :: "nat \<Rightarrow> nat \<Rightarrow> 'a list \<Rightarrow> 'a list list" where
  "chunks 0 k xs = []"
| "chunks (Suc n) k xs = take k xs # chunks n k (drop k xs)"

definition be64_bytes :: "64 word \<Rightarrow> byte list" where
  "be64_bytes v = map (\<lambda>i. ucast (drop_bit (8 * (7 - i)) v)) [0..<8]"

definition pad :: "byte list \<Rightarrow> byte list" where
  "pad m = m @ [128] @ replicate ((119 - length m mod 64) mod 64) 0
             @ be64_bytes (of_nat (8 * length m))"

definition hexdigit :: "u32 \<Rightarrow> char" where
  "hexdigit n = ''0123456789abcdef'' ! unat n"

definition hex32 :: "u32 \<Rightarrow> string" where
  "hex32 w = map (\<lambda>i. hexdigit (drop_bit (4 * (7 - i)) w AND 15)) [0..<8]"

definition sha256 :: "string \<Rightarrow> string" where
  "sha256 s =
     (let bs = pad (map of_char s);
          blocks = map (map be32 \<circ> chunks 16 4) (chunks (length bs div 64) 64 bs)
      in concat (map hex32 (foldl compress H256 blocks)))"

section \<open>File entries\<close>

text \<open>
  The metadata object handed to \<^verbatim>\<open>addOrUpdateFile\<close> and, with its \<^verbatim>\<open>file_path\<close>, the
  file object of a snapshot and of a leaf. \<open>None\<close> is JavaScript's \<^verbatim>\<open>null\<close> or a missing
  property. The source's \<^verbatim>\<open>size\<close> is \<open>fsize\<close>. Every caller of
  \<^verbatim>\<open>addOrUpdateFile\<close> passes the properties \<^verbatim>\<open>filename\<close>, \<^verbatim>\<open>local_url\<close>,
  \<^verbatim>\<open>s3_url\<close>, \<^verbatim>\<open>hash\<close>, \<^verbatim>\<open>size\<close> and \<^verbatim>\<open>mime_type\<close>; the one that passes a
  \<^verbatim>\<open>file_path\<close> too (file-watcher.js) passes the key itself, so the metadata carries
  none.
\<close>

record metadata =
  filename :: string
  local_url :: "string option"
  s3_url :: "string option"
  hash :: string
  fsize :: int
  timestamp :: "string option"
  mime_type :: "string option"

record file_entry = metadata +
  file_path :: string

section \<open>client/lib/merkle-tree.js\<close>

subsection \<open>MerkleNode\<close>

datatype MerkleNode =
  Node (data: "file_entry option") (left: "MerkleNode option") (right: "MerkleNode option")
       (node_hash: string) (isLeaf: bool)

text \<open>
  \<^verbatim>\<open>calculateHash()\<close> reads \<^verbatim>\<open>this.isLeaf\<close>, \<^verbatim>\<open>this.data\<close>, \<^verbatim>\<open>this.left\<close> and
  \<^verbatim>\<open>this.right\<close>. Its first argument is the value of \<^verbatim>\<open>this.isLeaf\<close> at the call:
  \<open>None\<close> when the property is not yet assigned (\<^verbatim>\<open>undefined\<close>, which is falsy).
\<close>

definition calculateHash ::
  "bool option \<Rightarrow> file_entry option \<Rightarrow> MerkleNode option \<Rightarrow> MerkleNode option \<Rightarrow> string" where
  "calculateHash isLeaf_read d l r =
     (case (if isLeaf_read = Some True then d else None) of
        Some file \<Rightarrow> hash file
      | None \<Rightarrow>
         (case (l, r) of
            (Some ln, Some rn) \<Rightarrow> sha256 (node_hash ln @ node_hash rn)
          | (Some ln, None) \<Rightarrow> node_hash ln
          | (None, Some rn) \<Rightarrow> node_hash rn
          | (None, None) \<Rightarrow> sha256 ''empty''))"

text \<open>
  The constructor assigns \<^verbatim>\<open>this.hash = this.calculateHash()\<close> before
  \<^verbatim>\<open>this.isLeaf = !left && !right\<close>: the hash is computed while \<^verbatim>\<open>isLeaf\<close> is
  still undefined.
\<close>

definition MerkleNode :: "file_entry option \<Rightarrow> MerkleNode option \<Rightarrow> MerkleNode option \<Rightarrow> MerkleNode" where
  "MerkleNode d l r = Node d l r (calculateHash None d l r) (l = None \<and> r = None)"

definition recalculateHash :: "MerkleNode \<Rightarrow> MerkleNode" where
  "recalculateHash n =
     Node (data n) (left n) (right n)
          (calculateHash (Some (isLeaf n)) (data n) (left n) (right n)) (isLeaf n)"

subsection \<open>MerkleTree\<close>

text \<open>
  \<^verbatim>\<open>leaves\<close> is a JavaScript \<^verbatim>\<open>Map\<close>: an association list in insertion order, where
  \<^verbatim>\<open>set\<close> on a present key keeps the key's place (\<open>AList.update\<close>), \<^verbatim>\<open>delete\<close> is
  \<open>AList.delete\<close>, \<^verbatim>\<open>get\<close> is \<open>map_of\<close> and \<^verbatim>\<open>has\<close> is \<open>Map_has\<close>.
\<close>

definition Map_has :: "('k \<times> 'v) list \<Rightarrow> 'k \<Rightarrow> bool" where
  "Map_has m k = (k \<in> fst ` set m)"

record MerkleTree =
  root :: "MerkleNode option"
  leaves :: "(string \<times> MerkleNode) list"

definition newMerkleTree :: MerkleTree where
  "newMerkleTree = \<lparr>root = None, leaves = []\<rparr>"

text \<open>\<^verbatim>\<open>x || y\<close> on a string that may be missing: the empty string is falsy too.\<close>

definition truthy :: "string option \<Rightarrow> bool" where
  "truthy x = (case x of Some s \<Rightarrow> s \<noteq> [] | None \<Rightarrow> False)"

text \<open>\<open>now\<close> is what \<^verbatim>\<open>new Date().toISOString()\<close> returns at the call.\<close>

definition createFileNode :: "string \<Rightarrow> string \<Rightarrow> 'a metadata_scheme \<Rightarrow> MerkleTree \<Rightarrow> MerkleTree" where
  "createFileNode now filePath m t =
     t\<lparr>leaves := AList.update filePath
          (MerkleNode (Some \<lparr>filename = filename m,
                              local_url = local_url m,
                              s3_url = (if truthy (s3_url m) then s3_url m else None),
                              hash = hash m,
                              fsize = fsize m,
                              timestamp = (if truthy (timestamp m) then timestamp m else Some now),
                              mime_type = mime_type m,
                              file_path = filePath\<rparr>) None None)
          (leaves t)\<rparr>"

fun nextLevel :: "MerkleNode list \<Rightarrow> MerkleNode list" where
  "nextLevel [] = []"
| "nextLevel [l] = [MerkleNode None (Some l) None]"
| "nextLevel (l # r # rest) = MerkleNode None (Some l) (Some r) # nextLevel rest"

lemma length_nextLevel: "length (nextLevel ns) = (length ns + 1) div 2"
  by (induction ns rule: nextLevel.induct) simp_all

function buildLevels :: "MerkleNode list \<Rightarrow> MerkleNode list" where
  "buildLevels currentLevel =
     (if length currentLevel > 1 then buildLevels (nextLevel currentLevel) else currentLevel)"
  by pat_completeness auto

termination
  by (relation "measure length") (auto simp: length_nextLevel)

declare buildLevels.simps [simp del]

definition rebuildTree :: "MerkleTree \<Rightarrow> MerkleTree" where
  "rebuildTree t =
     (case map snd (leaves t) of
        [] \<Rightarrow> t\<lparr>root := None\<rparr>
      | [n] \<Rightarrow> t\<lparr>root := Some n\<rparr>
      | leafNodes \<Rightarrow>
          t\<lparr>root := (case buildLevels leafNodes of [] \<Rightarrow> None | n # _ \<Rightarrow> Some n)\<rparr>)"

text \<open>
  The update branch: \<^verbatim>\<open>{...existingNode.data, ...metadata, timestamp: now}\<close> keeps the
  leaf's \<^verbatim>\<open>file_path\<close>, takes the other properties from the metadata and stamps the time.
\<close>

definition addOrUpdateFile :: "string \<Rightarrow> string \<Rightarrow> metadata \<Rightarrow> MerkleTree \<Rightarrow> MerkleTree" where
  "addOrUpdateFile now filePath m t =
     (case map_of (leaves t) filePath of
        Some existingNode \<Rightarrow>
          rebuildTree (t\<lparr>leaves := AList.update filePath
            (recalculateHash
               (Node (Some \<lparr>filename = filename m,
                             local_url = local_url m,
                             s3_url = s3_url m,
                             hash = hash m,
                             fsize = fsize m,
                             timestamp = Some now,
                             mime_type = mime_type m,
                             file_path = (case data existingNode of
                                            Some d \<Rightarrow> file_path d | None \<Rightarrow> filePath)\<rparr>)
                     (left existingNode) (right existingNode)
                     (node_hash existingNode) (isLeaf existingNode)))
            (leaves t)\<rparr>)
      | None \<Rightarrow> rebuildTree (createFileNode now filePath m t))"

definition getFile :: "string \<Rightarrow> MerkleTree \<Rightarrow> file_entry option" where
  "getFile filePath t = (case map_of (leaves t) filePath of Some node \<Rightarrow> data node | None \<Rightarrow> None)"

definition updateS3Url :: "string \<Rightarrow> string \<Rightarrow> string \<Rightarrow> MerkleTree \<Rightarrow> MerkleTree \<times> bool" where
  "updateS3Url now filePath s3Url t =
     (case map_of (leaves t) filePath of
        Some node \<Rightarrow>
          (case data node of
             Some d \<Rightarrow>
               (rebuildTree (t\<lparr>leaves := AList.update filePath
                  (recalculateHash
                     (Node (Some (d\<lparr>s3_url := Some s3Url, timestamp := Some now\<rparr>))
                           (left node) (right node) (node_hash node) (isLeaf node)))
                  (leaves t)\<rparr>), True)
           | None \<Rightarrow> (t, False))
      | None \<Rightarrow> (t, False))"

definition removeFile :: "string \<Rightarrow> MerkleTree \<Rightarrow> MerkleTree \<times> bool" where
  "removeFile filePath t =
     (if Map_has (leaves t) filePath
      then (rebuildTree (t\<lparr>leaves := AList.delete filePath (leaves t)\<rparr>), True)
      else (t, False))"

text \<open>
  \<^verbatim>\<open>getAllFiles\<close> pushes \<^verbatim>\<open>{file_path: filePath, ...node.data}\<close> for every leaf with
  data; the data's own \<^verbatim>\<open>file_path\<close> is spread over the key.
\<close>

definition getAllFiles :: "MerkleTree \<Rightarrow> file_entry list" where
  "getAllFiles t = List.map_filter (\<lambda>(filePath, node). data node) (leaves t)"

definition getRootHash :: "MerkleTree \<Rightarrow> string option" where
  "getRootHash t = (case root t of Some n \<Rightarrow> Some (node_hash n) | None \<Rightarrow> None)"

text \<open>The snapshot of the wire format; \<open>files = None\<close> is a snapshot without the property.\<close>

record snapshot =
  rootHash :: "string option"
  snap_timestamp :: string
  files :: "file_entry list option"

definition toJSON :: "string \<Rightarrow> MerkleTree \<Rightarrow> snapshot" where
  "toJSON now t = \<lparr>rootHash = getRootHash t, snap_timestamp = now, files = Some (getAllFiles t)\<rparr>"

text \<open>One clock reading serves the whole loop of \<^verbatim>\<open>fromJSON\<close>.\<close>

definition fromJSON :: "string \<Rightarrow> snapshot \<Rightarrow> MerkleTree \<Rightarrow> MerkleTree" where
  "fromJSON now snap t =
     rebuildTree
       (foldl (\<lambda>acc file. createFileNode now (file_path file) file acc)
              (t\<lparr>leaves := []\<rparr>)
              (case files snap of Some fs \<Rightarrow> fs | None \<Rightarrow> []))"

text \<open>
  The loops of \<^verbatim>\<open>getDifferences\<close>: \<^verbatim>\<open>for (const file of ...) map.set(file.file_path, file)\<close>
  builds the two maps, the first pass fills \<^verbatim>\<open>added\<close> and \<^verbatim>\<open>modified\<close>, the second
  \<^verbatim>\<open>deleted\<close>. \<^verbatim>\<open>!==\<close> on two strings (or missing values) is \<open>\<noteq>\<close>.
\<close>

record differences =
  added :: "file_entry list"
  modified :: "file_entry list"
  deleted :: "file_entry list"

definition filesByPath :: "file_entry list \<Rightarrow> (string \<times> file_entry) list" where
  "filesByPath fs = foldl (\<lambda>m file. AList.update (file_path file) file m) [] fs"

fun findAddedModified ::
  "(string \<times> file_entry) list \<Rightarrow> (string \<times> file_entry) list \<Rightarrow> differences \<Rightarrow> differences" where
  "findAddedModified [] otherFiles d = d"
| "findAddedModified ((filePath, file) # rest) otherFiles d =
     findAddedModified rest otherFiles
       (if \<not> Map_has otherFiles filePath then d\<lparr>added := added d @ [file]\<rparr>
        else (case map_of otherFiles filePath of
                Some otherFile \<Rightarrow>
                  if hash file \<noteq> hash otherFile \<or> timestamp file \<noteq> timestamp otherFile
                  then d\<lparr>modified := modified d @ [file]\<rparr>
                  else d
              | None \<Rightarrow> d))"

fun findDeleted ::
  "(string \<times> file_entry) list \<Rightarrow> (string \<times> file_entry) list \<Rightarrow> differences \<Rightarrow> differences" where
  "findDeleted [] myFiles d = d"
| "findDeleted ((filePath, file) # rest) myFiles d =
     findDeleted rest myFiles
       (if \<not> Map_has myFiles filePath then d\<lparr>deleted := deleted d @ [file]\<rparr> else d)"

definition getDifferences :: "MerkleTree \<Rightarrow> MerkleTree \<Rightarrow> differences" where
  "getDifferences this otherTree =
     (let myFiles = filesByPath (getAllFiles this);
          otherFiles = filesByPath (getAllFiles otherTree)
      in findDeleted otherFiles myFiles
           (findAddedModified myFiles otherFiles \<lparr>added = [], modified = [], deleted = []\<rparr>))"

section \<open>routes/merkle.js\<close>

subsection \<open>The server's MerkleTree\<close>

text \<open>The server's class keeps the file objects of the snapshot as they are, in a \<^verbatim>\<open>Map\<close>.\<close>

record ServerTree =
  tree_files :: "(string \<times> file_entry) list"

definition server_newMerkleTree :: ServerTree where
  "server_newMerkleTree = \<lparr>tree_files = []\<rparr>"

definition server_fromJSON :: "snapshot \<Rightarrow> ServerTree" where
  "server_fromJSON snap =
     \<lparr>tree_files = foldl (\<lambda>m file. AList.update (file_path file) file m) []
                      (case files snap of Some fs \<Rightarrow> fs | None \<Rightarrow> [])\<rparr>"

definition server_getAllFiles :: "ServerTree \<Rightarrow> file_entry list" where
  "server_getAllFiles t = map snd (tree_files t)"

fun server_findAddedModified ::
  "(string \<times> file_entry) list \<Rightarrow> (string \<times> file_entry) list \<Rightarrow> differences \<Rightarrow> differences" where
  "server_findAddedModified [] otherFiles d = d"
| "server_findAddedModified ((filePath, file) # rest) otherFiles d =
     server_findAddedModified rest otherFiles
       (if \<not> Map_has otherFiles filePath then d\<lparr>added := added d @ [file]\<rparr>
        else (case map_of otherFiles filePath of
                Some otherFile \<Rightarrow>
                  if hash file \<noteq> hash otherFile \<or> timestamp file \<noteq> timestamp otherFile
                  then d\<lparr>modified := modified d @ [file]\<rparr>
                  else d
              | None \<Rightarrow> d))"

fun server_findDeleted ::
  "(string \<times> file_entry) list \<Rightarrow> (string \<times> file_entry) list \<Rightarrow> differences \<Rightarrow> differences" where
  "server_findDeleted [] myFiles d = d"
| "server_findDeleted ((filePath, file) # rest) myFiles d =
     server_findDeleted rest myFiles
       (if \<not> Map_has myFiles filePath then d\<lparr>deleted := deleted d @ [file]\<rparr> else d)"

definition server_getDifferences :: "ServerTree \<Rightarrow> ServerTree \<Rightarrow> differences" where
  "server_getDifferences this otherTree =
     (let myFiles = tree_files this;
          otherFiles = foldl (\<lambda>m file. AList.update (file_path file) file m) []
                             (server_getAllFiles otherTree)
      in server_findDeleted otherFiles myFiles
           (server_findAddedModified myFiles otherFiles
              \<lparr>added = [], modified = [], deleted = []\<rparr>))"

subsection \<open>POST /diff\<close>

text \<open>
  A file of the response: the file object and, when the files table knows its hash, the
  row's \<^verbatim>\<open>id\<close>. The query of the files table and the presigning of a MinIO key are
  parameters: \<open>lookup h\<close> is \<open>Inl\<close> when the query throws, \<open>Inr None\<close> when no row
  has the hash, \<open>Inr (Some (minio_key, id))\<close> otherwise; \<open>presign k\<close> is \<open>None\<close> when
  \<^verbatim>\<open>generatePresignedUrl\<close> catches an error and returns \<^verbatim>\<open>null\<close>.
\<close>

record enriched_file = file_entry +
  file_id :: "string option"

definition as_is :: "file_entry \<Rightarrow> enriched_file" where
  "as_is file =
     \<lparr>filename = filename file, local_url = local_url file, s3_url = s3_url file,
      hash = hash file, fsize = fsize file, timestamp = timestamp file,
      mime_type = mime_type file, file_path = file_path file, file_id = None\<rparr>"

definition enrichFile ::
  "(string \<Rightarrow> string + (string \<times> string) option) \<Rightarrow> (string \<Rightarrow> string option) \<Rightarrow>
   file_entry \<Rightarrow> enriched_file" where
  "enrichFile lookup presign file =
     (case lookup (hash file) of
        Inr (Some (minio_key, fid)) \<Rightarrow>
          (as_is file)\<lparr>file_id := Some fid,
                        s3_url := (if truthy (presign minio_key) then presign minio_key
                                   else s3_url file)\<rparr>
      | Inr None \<Rightarrow> as_is file
      | Inl err \<Rightarrow> as_is file)"

definition enrichFilesWithFreshUrls ::
  "(string \<Rightarrow> string + (string \<times> string) option) \<Rightarrow> (string \<Rightarrow> string option) \<Rightarrow>
   file_entry list \<Rightarrow> enriched_file list" where
  "enrichFilesWithFreshUrls lookup presign fs = map (enrichFile lookup presign) fs"

record merkle_tree_row =
  root_hash :: "string option"
  tree_data :: snapshot

record enriched_differences =
  e_added :: "enriched_file list"
  e_modified :: "enriched_file list"
  e_deleted :: "file_entry list"

record diff_response =
  r_differences :: enriched_differences
  serverRootHash :: "string option"
  localRootHash :: "string option"

text \<open>\<open>rows\<close> is \<^verbatim>\<open>serverResult.rows\<close>: the stored trees of the (user, device) pair.\<close>

definition diff_route ::
  "(string \<Rightarrow> string + (string \<times> string) option) \<Rightarrow> (string \<Rightarrow> string option) \<Rightarrow>
   merkle_tree_row list \<Rightarrow> snapshot \<Rightarrow> diff_response" where
  "diff_route lookup presign rows localTreeData =
     (let differences =
            (case rows of
               row # _ \<Rightarrow>
                 server_getDifferences (server_fromJSON (tree_data row))
                                       (server_fromJSON localTreeData)
             | [] \<Rightarrow> \<lparr>added = [], modified = [], deleted = []\<rparr>)
      in \<lparr>r_differences =
            \<lparr>e_added = enrichFilesWithFreshUrls lookup presign (added differences),
             e_modified = enrichFilesWithFreshUrls lookup presign (modified differences),
             e_deleted = deleted differences\<rparr>,
          serverRootHash = (case rows of row # _ \<Rightarrow> root_hash row | [] \<Rightarrow> None),
          localRootHash = (if truthy (rootHash localTreeData) then rootHash localTreeData
                           else None)\<rparr>)"

section \<open>client/lib/file-watcher.js\<close>

subsection \<open>Paths and the ignore predicate\<close>

text \<open>
  \<^verbatim>\<open>path.basename\<close> and \<^verbatim>\<open>path.extname\<close> of Node.js on POSIX paths, and the regular
  expressions of \<^verbatim>\<open>ignorePatterns\<close> as tests on strings: \<^verbatim>\<open>/^\./\<close> is
  \<open>startsWith ''.''\<close>, \<^verbatim>\<open>/\.tmp$/\<close> is \<open>endsWith ''.tmp''\<close>, \<^verbatim>\<open>/node_modules/\<close> is
  \<open>includes_str ''node_modules''\<close>.
\<close>

definition basename :: "string \<Rightarrow> string" where
  "basename p =
     rev (takeWhile (\<lambda>c. c \<noteq> CHR ''/'') (dropWhile (\<lambda>c. c = CHR ''/'') (rev p)))"

definition extname :: "string \<Rightarrow> string" where
  "extname p =
     (let b = basename p; e = takeWhile (\<lambda>c. c \<noteq> CHR ''.'') (rev b)
      in if length e = length b \<or> length e + 1 = length b \<or> b = ''..'' then []
         else CHR ''.'' # rev e)"

fun startsWith :: "string \<Rightarrow> string \<Rightarrow> bool" where
  "startsWith [] s = True"
| "startsWith (p # ps) [] = False"
| "startsWith (p # ps) (c # cs) = (p = c \<and> startsWith ps cs)"

definition endsWith :: "string \<Rightarrow> string \<Rightarrow> bool" where
  "endsWith p s = startsWith (rev p) (rev s)"

fun includes_str :: "string \<Rightarrow> string \<Rightarrow> bool" where
  "includes_str p [] = (p = [])"
| "includes_str p (c # cs) = (startsWith p (c # cs) \<or> includes_str p cs)"

definition shouldIgnoreFile :: "string \<Rightarrow> bool" where
  "shouldIgnoreFile filePath =
     (let ignorePatterns =
            [startsWith ''.'', endsWith ''~'', endsWith ''.tmp'', endsWith ''.log'',
             includes_str ''node_modules'', includes_str ''.git'']
      in list_ex (\<lambda>pattern. pattern (basename filePath) \<or> pattern filePath) ignorePatterns)"

definition toLowerCase :: "string \<Rightarrow> string" where
  "toLowerCase s =
     map (\<lambda>c. if (65::nat) \<le> of_char c \<and> of_char c \<le> (90::nat)
              then char_of (of_char c + (32::nat)) else c) s"

definition getMimeType :: "string \<Rightarrow> string" where
  "getMimeType filePath =
     (case map_of
             [(''.txt'', ''text/plain''), (''.json'', ''application/json''),
              (''.js'', ''application/javascript''), (''.html'', ''text/html''),
              (''.css'', ''text/css''), (''.png'', ''image/png''), (''.jpg'', ''image/jpeg''),
              (''.jpeg'', ''image/jpeg''), (''.gif'', ''image/gif''),
              (''.pdf'', ''application/pdf''), (''.zip'', ''application/zip'')]
             (toLowerCase (extname filePath)) of
        Some t \<Rightarrow> t
      | None \<Rightarrow> ''application/octet-stream'')"

subsection \<open>The state of the client\<close>

text \<open>
  The module variables of file-watcher.js and sync.js, the files of the disk (a path to its
  bytes), the tree file last written by \<^verbatim>\<open>saveMerkleTree\<close>, the callbacks handed to
  \<^verbatim>\<open>setTimeout\<close> with their due time, and the requests sent through \<^verbatim>\<open>api\<close>.
  \<open>activeSyncs\<close> counts the calls of \<^verbatim>\<open>performSync\<close> that have started and not yet
  returned: each waits at an \<^verbatim>\<open>await\<close>.
\<close>

record config =
  DEVICE_ID :: string
  path_join_watch :: "string \<Rightarrow> string"
  path_relative_watch :: "string \<Rightarrow> string"

text \<open>
  \<open>path_join_watch p\<close> is \<^verbatim>\<open>path.join(config.WATCH_DIRECTORY, p)\<close> and
  \<open>path_relative_watch p\<close> is \<^verbatim>\<open>path.relative(config.WATCH_DIRECTORY, p)\<close>.
\<close>

record instant =
  iso :: string
  ms :: int

text \<open>
  The clock at a call: \<open>iso\<close> is \<^verbatim>\<open>new Date().toISOString()\<close>, \<open>ms\<close> is
  \<^verbatim>\<open>Date.now()\<close>.
\<close>

datatype event_type = Add | Change | Unlink

record queue_item =
  fullPath :: string
  relativePath :: string
  q_timestamp :: int
  q_hash :: "string option"

record recent_download =
  rd_hash :: "string option"
  rd_timestamp :: int

datatype timer = ProcessUploadQueue | ExpireRecentlyDownloaded string

datatype api_call =
    DeleteFileByHash string
  | UpdateMerkleTree string snapshot
  | GetMerkleTreeDifferences string snapshot
  | DownloadFile string string

record client_state =
  disk :: "string \<Rightarrow> string option"
  merkleTree :: MerkleTree
  savedTree :: "snapshot option"
  uploadQueue :: "(string \<times> queue_item) list"
  isProcessing :: bool
  downloadingFiles :: "string set"
  recentlyDownloaded :: "string \<Rightarrow> recent_download option"
  timers :: "(int \<times> timer) list"
  outbox :: "api_call list"
  lastSyncAt :: "string option"
  activeSyncs :: nat

definition calculateFileHash :: "(string \<Rightarrow> string option) \<Rightarrow> string \<Rightarrow> string option" where
  "calculateFileHash d filePath =
     (case d filePath of Some buffer \<Rightarrow> Some (sha256 buffer) | None \<Rightarrow> None)"

definition saveMerkleTree :: "instant \<Rightarrow> client_state \<Rightarrow> client_state" where
  "saveMerkleTree at s = s\<lparr>savedTree := Some (toJSON (iso at) (merkleTree s))\<rparr>"

definition queueUpload :: "instant \<Rightarrow> string \<Rightarrow> string \<Rightarrow> client_state \<Rightarrow> client_state" where
  "queueUpload at filePath relPath s =
     s\<lparr>uploadQueue := AList.update relPath
          \<lparr>fullPath = filePath, relativePath = relPath, q_timestamp = ms at,
           q_hash = calculateFileHash (disk s) filePath\<rparr> (uploadQueue s),
       timers := timers s @ [(ms at + 1000, ProcessUploadQueue)]\<rparr>"

text \<open>
  The deletion on the server and the update of the server's tree are requests whose failure
  is caught and logged; the tree is changed and saved in any case.
\<close>

definition handleLocalDeletion :: "config \<Rightarrow> instant \<Rightarrow> string \<Rightarrow> client_state \<Rightarrow> client_state" where
  "handleLocalDeletion cfg at relPath s =
     (let s1 = (case getFile relPath (merkleTree s) of
                  Some fileInfo \<Rightarrow>
                    if hash fileInfo \<noteq> []
                    then s\<lparr>outbox := outbox s @ [DeleteFileByHash (hash fileInfo)]\<rparr>
                    else s
                | None \<Rightarrow> s);
          s2 = saveMerkleTree at (s1\<lparr>merkleTree := fst (removeFile relPath (merkleTree s1))\<rparr>)
      in s2\<lparr>outbox := outbox s2 @
              [UpdateMerkleTree (DEVICE_ID cfg) (toJSON (iso at) (merkleTree s2))]\<rparr>)"

text \<open>
  \<^verbatim>\<open>handleFileChange(filePath, eventType)\<close>, run to its end without another handler in
  between. \<^verbatim>\<open>fs.stat(filePath).size\<close> is the length of the file read a line before.
\<close>

definition handleFileChange ::
  "config \<Rightarrow> instant \<Rightarrow> string \<Rightarrow> event_type \<Rightarrow> client_state \<Rightarrow> client_state" where
  "handleFileChange cfg at filePath eventType s =
     (if shouldIgnoreFile filePath then s
      else let relPath = path_relative_watch cfg filePath in
        if relPath \<in> downloadingFiles s then s
        else if eventType = Change \<or> eventType = Add then
          (let currentHash = calculateFileHash (disk s) filePath in
           case (case recentlyDownloaded s relPath of
                   Some recentDownload \<Rightarrow> currentHash = rd_hash recentDownload
                 | None \<Rightarrow> False) of
             True \<Rightarrow> s
           | False \<Rightarrow>
               queueUpload at filePath relPath
                 (if truthy currentHash
                  then saveMerkleTree at
                         (s\<lparr>merkleTree := addOrUpdateFile (iso at) relPath
                              \<lparr>filename = basename filePath,
                               local_url = Some filePath,
                               s3_url = None,
                               hash = (case currentHash of Some h \<Rightarrow> h | None \<Rightarrow> []),
                               fsize = (case disk s filePath of
                                          Some buffer \<Rightarrow> int (length buffer) | None \<Rightarrow> 0),
                               timestamp = Some (iso at),
                               mime_type = Some (getMimeType filePath)\<rparr>
                              (merkleTree s)\<rparr>)
                  else s))
        else handleLocalDeletion cfg at relPath s)"

text \<open>
  The entry of \<^verbatim>\<open>processUploadQueue\<close>: the guard, the copy of the queue and its clearing.
  The uploads of the copied entries are not part of this development.
\<close>

definition processUploadQueue_enter ::
  "client_state \<Rightarrow> client_state \<times> (string \<times> queue_item) list" where
  "processUploadQueue_enter s =
     (if isProcessing s \<or> uploadQueue s = [] then (s, [])
      else (s\<lparr>isProcessing := True, uploadQueue := []\<rparr>, uploadQueue s))"

definition markAsDownloading :: "string \<Rightarrow> client_state \<Rightarrow> client_state" where
  "markAsDownloading relPath s = s\<lparr>downloadingFiles := insert relPath (downloadingFiles s)\<rparr>"

definition markDownloadComplete ::
  "instant \<Rightarrow> string \<Rightarrow> string option \<Rightarrow> client_state \<Rightarrow> client_state" where
  "markDownloadComplete at relPath fileHash s =
     s\<lparr>downloadingFiles := downloadingFiles s - {relPath},
       recentlyDownloaded := (recentlyDownloaded s)
          (relPath := Some \<lparr>rd_hash = fileHash, rd_timestamp = ms at\<rparr>),
       timers := timers s @ [(ms at + 10000, ExpireRecentlyDownloaded relPath)]\<rparr>"

text \<open>The callback of the timer that \<^verbatim>\<open>markDownloadComplete\<close> sets.\<close>

definition expireRecentlyDownloaded :: "instant \<Rightarrow> string \<Rightarrow> client_state \<Rightarrow> client_state" where
  "expireRecentlyDownloaded at relPath s =
     (case recentlyDownloaded s relPath of
        Some entry \<Rightarrow>
          if ms at - rd_timestamp entry > 10000
          then s\<lparr>recentlyDownloaded := (recentlyDownloaded s)(relPath := None)\<rparr>
          else s
      | None \<Rightarrow> s)"

section \<open>client/lib/sync.js\<close>

text \<open>
  \<^verbatim>\<open>api.downloadFile(id, localPath)\<close> is not among the sources: \<open>fetched\<close> is its
  outcome, \<open>Some bytes\<close> when it wrote the bytes to \<^verbatim>\<open>localPath\<close> and returned,
  \<open>None\<close> when it threw (what it left at \<^verbatim>\<open>localPath\<close> then is not known: the disk
  is kept as it was). It is given the id and the path only, not the hash of the entry.
\<close>

definition downloadFileFromServer ::
  "config \<Rightarrow> instant \<Rightarrow> string option \<Rightarrow> enriched_file \<Rightarrow> client_state \<Rightarrow> client_state" where
  "downloadFileFromServer cfg at fetched fileMetadata s =
     (let localPath = path_join_watch cfg (file_path fileMetadata);
          relPath = path_relative_watch cfg localPath
      in if disk s localPath \<noteq> None
            \<and> calculateFileHash (disk s) localPath = Some (hash fileMetadata)
         then s
         else
           (let s1 = markAsDownloading relPath s in
            case (if truthy (file_id fileMetadata) then file_id fileMetadata else None) of
              None \<Rightarrow> s1
            | Some fid \<Rightarrow>
                (let s2 = s1\<lparr>outbox := outbox s1 @ [DownloadFile fid localPath]\<rparr> in
                 case fetched of
                   None \<Rightarrow> markDownloadComplete at relPath None s2
                 | Some bytes \<Rightarrow>
                     markDownloadComplete at relPath (Some (hash fileMetadata))
                       (s2\<lparr>disk := (disk s2)(localPath := Some bytes),
                           merkleTree := addOrUpdateFile (iso at) relPath
                             \<lparr>filename = filename fileMetadata,
                              local_url = Some localPath,
                              s3_url = s3_url fileMetadata,
                              hash = hash fileMetadata,
                              fsize = fsize fileMetadata,
                              timestamp = None,
                              mime_type = mime_type fileMetadata\<rparr>
                             (merkleTree s2)\<rparr>))))"

definition handleServerDeletion :: "config \<Rightarrow> file_entry \<Rightarrow> client_state \<Rightarrow> client_state" where
  "handleServerDeletion cfg fileMetadata s =
     (let localPath = path_join_watch cfg (file_path fileMetadata);
          relPath = path_relative_watch cfg localPath
      in s\<lparr>disk := (disk s)(localPath := None),
           merkleTree := fst (removeFile relPath (merkleTree s))\<rparr>)"

text \<open>
  \<^verbatim>\<open>performSync\<close> up to its first \<^verbatim>\<open>await\<close>: it takes the snapshot of the local tree
  and sends the request for the differences. Nothing is tested before.
\<close>

definition performSync_request :: "config \<Rightarrow> instant \<Rightarrow> client_state \<Rightarrow> client_state" where
  "performSync_request cfg at s =
     s\<lparr>outbox := outbox s @
          [GetMerkleTreeDifferences (DEVICE_ID cfg) (toJSON (iso at) (merkleTree s))],
       activeSyncs := activeSyncs s + 1\<rparr>"

text \<open>
  The rest of \<^verbatim>\<open>performSync\<close>, from the answer of the server: \<open>Failed\<close> when the
  request threw, \<open>NoData\<close> when the answer has no \<^verbatim>\<open>differences\<close>. \<open>fetch\<close> gives
  the outcome of \<^verbatim>\<open>api.downloadFile\<close> for an id.
\<close>

datatype diff_result = Failed | NoData | Differences enriched_differences

definition downloadAll ::
  "config \<Rightarrow> instant \<Rightarrow> (string \<Rightarrow> string option) \<Rightarrow> enriched_file list \<Rightarrow>
   client_state \<Rightarrow> client_state" where
  "downloadAll cfg at fetch filesToDownload s =
     foldl (\<lambda>acc file.
              if truthy (s3_url file) \<and> truthy (file_id file)
              then downloadFileFromServer cfg at
                     (case file_id file of Some fid \<Rightarrow> fetch fid | None \<Rightarrow> None) file acc
              else acc)
           s filesToDownload"

definition performSync_response ::
  "config \<Rightarrow> instant \<Rightarrow> (string \<Rightarrow> string option) \<Rightarrow> diff_result \<Rightarrow>
   client_state \<Rightarrow> client_state" where
  "performSync_response cfg at fetch result s =
     (case result of
        Failed \<Rightarrow> s\<lparr>activeSyncs := activeSyncs s - 1\<rparr>
      | NoData \<Rightarrow> s\<lparr>activeSyncs := activeSyncs s - 1\<rparr>
      | Differences d \<Rightarrow>
          (let s1 = (if e_added d \<noteq> [] \<or> e_modified d \<noteq> [] \<or> e_deleted d \<noteq> []
                     then saveMerkleTree at
                            (foldl (\<lambda>acc file. handleServerDeletion cfg file acc)
                                   (downloadAll cfg at fetch (e_added d @ e_modified d) s)
                                   (e_deleted d))
                     else s)
           in s1\<lparr>lastSyncAt := Some (iso at), activeSyncs := activeSyncs s1 - 1\<rparr>))"

text \<open>
  \<^verbatim>\<open>startPeriodicSync\<close> calls \<^verbatim>\<open>performSync()\<close> and hands \<^verbatim>\<open>performSync\<close> to
  \<^verbatim>\<open>setInterval\<close>: every tick of the interval is a call.
\<close>

definition startPeriodicSync :: "config \<Rightarrow> instant \<Rightarrow> client_state \<Rightarrow> client_state" where
  "startPeriodicSync cfg at s = performSync_request cfg at s"

definition intervalTick :: "config \<Rightarrow> instant \<Rightarrow> client_state \<Rightarrow> client_state" where
  "intervalTick cfg at s = performSync_request cfg at s"

section \<open>Notions of the statements\<close>

text \<open>
  A run of \<^verbatim>\<open>addOrUpdateFile\<close> calls: each with the clock at the call, the path and the
  metadata.
\<close>

fun addAll :: "(string \<times> string \<times> metadata) list \<Rightarrow> MerkleTree \<Rightarrow> MerkleTree" where
  "addAll [] t = t"
| "addAll ((now, filePath, m) # ops) t = addAll ops (addOrUpdateFile now filePath m t)"

text \<open>
  A run of ticks of the interval, each with the clock at the tick, with no answer of the
  server in between.
\<close>

fun intervalTicks :: "config \<Rightarrow> instant list \<Rightarrow> client_state \<Rightarrow> client_state" where
  "intervalTicks cfg [] s = s"
| "intervalTicks cfg (at # ats) s = intervalTicks cfg ats (intervalTick cfg at s)"

text \<open>
  What every tree made by the operations of the class satisfies: the keys of \<^verbatim>\<open>leaves\<close>
  are pairwise different, and every leaf carries the data of a file whose \<^verbatim>\<open>file_path\<close> is
  its key.
\<close>

definition tree_inv :: "MerkleTree \<Rightarrow> bool" where
  "tree_inv t \<longleftrightarrow>
     distinct (map fst (leaves t))
     \<and> list_all (\<lambda>(p, n). case data n of Some d \<Rightarrow> file_path d = p | None \<Rightarrow> False) (leaves t)"

text \<open>The files of a snapshot, none when the property is missing.\<close>

definition snapshot_files :: "snapshot \<Rightarrow> file_entry list" where
  "snapshot_files snap = (case files snap of Some fs \<Rightarrow> fs | None \<Rightarrow> [])"

text \<open>
  A file object that \<^verbatim>\<open>createFileNode\<close> stores as it is: it has a timestamp, and its
  \<^verbatim>\<open>s3_url\<close> is \<^verbatim>\<open>null\<close> or a non-empty string.
\<close>

definition wire_normal :: "file_entry \<Rightarrow> bool" where
  "wire_normal f \<longleftrightarrow> truthy (timestamp f) \<and> (s3_url f = None \<or> truthy (s3_url f))"

text \<open>The leaf that \<^verbatim>\<open>createFileNode\<close> makes for a file object of a snapshot.\<close>

definition leafOf :: "string \<Rightarrow> file_entry \<Rightarrow> MerkleNode" where
  "leafOf now f =
     MerkleNode (Some \<lparr>filename = filename f, local_url = local_url f,
                        s3_url = (if truthy (s3_url f) then s3_url f else None),
                        hash = hash f, fsize = fsize f,
                        timestamp = (if truthy (timestamp f) then timestamp f else Some now),
                        mime_type = mime_type f, file_path = file_path f\<rparr>) None None"

section \<open>Example inputs\<close>

text \<open>
  The file \<^verbatim>\<open>notes.txt\<close> holding the five bytes \<^verbatim>\<open>hello\<close>, with their SHA-256, and
  a second file.
\<close>

definition notes_meta :: metadata where
  "notes_meta =
     \<lparr>filename = ''notes.txt'', local_url = Some ''/home/u/sync-folder/notes.txt'',
      s3_url = None,
      hash = ''2cf24dba5fb0a30e26e83b2ac5b9e29e1b161e5c1fa7425e73043362938b9824'',
      fsize = 5, timestamp = Some ''2024-05-01T10:00:00.000Z'',
      mime_type = Some ''text/plain''\<rparr>"

definition todo_meta :: metadata where
  "todo_meta =
     \<lparr>filename = ''todo.txt'', local_url = Some ''/home/u/sync-folder/todo.txt'',
      s3_url = None,
      hash = ''2d58e7f89815d6248556ea11291a25b829440d33ceb340e462cbc568ba6ded5e'',
      fsize = 26, timestamp = Some ''2024-05-01T10:00:05.000Z'',
      mime_type = Some ''text/plain''\<rparr>"

definition old_meta :: metadata where
  "old_meta =
     \<lparr>filename = ''old.txt'', local_url = Some ''/home/u/sync-folder/old.txt'',
      s3_url = Some ''http://minio:9000/files/old.txt'',
      hash = ''d121be3103007b41edf96f8262925f8c7d61894afe9a041843b631f69445bc57'',
      fsize = 8, timestamp = Some ''2024-04-30T18:00:00.000Z'',
      mime_type = Some ''text/plain''\<rparr>"

definition notes_tree :: MerkleTree where
  "notes_tree = addOrUpdateFile ''2024-05-01T10:00:00.000Z'' ''notes.txt'' notes_meta newMerkleTree"

definition uploaded_tree :: MerkleTree where
  "uploaded_tree =
     fst (updateS3Url ''2024-05-01T10:00:02.000Z'' ''notes.txt''
            ''http://minio:9000/files/notes.txt'' notes_tree)"

definition mine_tree :: MerkleTree where
  "mine_tree =
     addAll [(''2024-05-01T10:00:00.000Z'', ''notes.txt'', notes_meta),
             (''2024-05-01T10:00:05.000Z'', ''todo.txt'', todo_meta)] newMerkleTree"

definition theirs_tree :: MerkleTree where
  "theirs_tree =
     addAll [(''2024-04-30T18:00:00.000Z'', ''old.txt'', old_meta),
             (''2024-04-30T18:00:01.000Z'', ''notes.txt'', notes_meta\<lparr>hash := hash old_meta\<rparr>)]
            newMerkleTree"

definition notes_file :: file_entry where
  "notes_file =
     \<lparr>filename = ''notes.txt'', local_url = Some ''/home/u/sync-folder/notes.txt'',
      s3_url = Some ''http://minio:9000/files/notes.txt'',
      hash = ''2cf24dba5fb0a30e26e83b2ac5b9e29e1b161e5c1fa7425e73043362938b9824'',
      fsize = 5, timestamp = Some ''2024-05-01T10:00:02.000Z'',
      mime_type = Some ''text/plain'', file_path = ''notes.txt''\<rparr>"

definition todo_file :: file_entry where
  "todo_file =
     \<lparr>filename = ''todo.txt'', local_url = Some ''/home/u/sync-folder/todo.txt'',
      s3_url = None,
      hash = ''2d58e7f89815d6248556ea11291a25b829440d33ceb340e462cbc568ba6ded5e'',
      fsize = 26, timestamp = Some ''2024-05-01T10:00:05.000Z'',
      mime_type = Some ''text/plain'', file_path = ''todo.txt''\<rparr>"

text \<open>A file object without a timestamp, as the schema of \<^verbatim>\<open>/update\<close> admits it.\<close>

definition bare_file :: file_entry where
  "bare_file =
     \<lparr>filename = ''notes.txt'', local_url = None, s3_url = None,
      hash = ''2cf24dba5fb0a30e26e83b2ac5b9e29e1b161e5c1fa7425e73043362938b9824'',
      fsize = 5, timestamp = None, mime_type = Some ''text/plain'', file_path = ''notes.txt''\<rparr>"

definition server_snapshot :: snapshot where
  "server_snapshot =
     \<lparr>rootHash = Some ''2e1cfa82b035c26cbbbdae632cea070514eb8b773f616aaeaf668e2f0be8f10d'',
      snap_timestamp = ''2024-05-01T10:00:06.000Z'', files = Some [notes_file, todo_file]\<rparr>"

definition local_snapshot :: snapshot where
  "local_snapshot =
     \<lparr>rootHash = Some ''2e1cfa82b035c26cbbbdae632cea070514eb8b773f616aaeaf668e2f0be8f10d'',
      snap_timestamp = ''2024-05-01T11:00:00.000Z'',
      files = Some [notes_file\<lparr>timestamp := Some ''2024-04-30T09:00:00.000Z''\<rparr>]\<rparr>"

definition notes_remote :: enriched_file where
  "notes_remote =
     \<lparr>filename = ''notes.txt'', local_url = Some ''/home/v/sync-folder/notes.txt'',
      s3_url = Some ''http://minio:9000/files/notes.txt?X-Amz-Expires=86400'',
      hash = ''2cf24dba5fb0a30e26e83b2ac5b9e29e1b161e5c1fa7425e73043362938b9824'',
      fsize = 5, timestamp = Some ''2024-05-01T10:00:02.000Z'',
      mime_type = Some ''text/plain'', file_path = ''notes.txt'',
      file_id = Some ''7f3c2a10-5b1e-4c1d-9a57-0d2f6f0c9b11''\<rparr>"

definition example_config :: config where
  "example_config =
     \<lparr>DEVICE_ID = ''laptop'',
      path_join_watch = (\<lambda>p. ''/home/u/sync-folder/'' @ p),
      path_relative_watch = (\<lambda>p. drop 20 p)\<rparr>"

definition initial_state :: client_state where
  "initial_state =
     \<lparr>disk = (\<lambda>p. None), merkleTree = newMerkleTree, savedTree = None, uploadQueue = [],
      isProcessing = False, downloadingFiles = {}, recentlyDownloaded = (\<lambda>p. None),
      timers = [], outbox = [], lastSyncAt = None, activeSyncs = 0\<rparr>"

text \<open>The client with one file on its disk, holding the five bytes \<^verbatim>\<open>empty\<close>.\<close>

definition state_with_file :: "string \<Rightarrow> client_state" where
  "state_with_file p = initial_state\<lparr>disk := (\<lambda>q. if q = p then Some ''empty'' else None)\<rparr>"

section \<open>Evaluation\<close>

text \<open>
  The digests of three byte strings, computed by the definitions above: the test vector
  \<^verbatim>\<open>abc\<close> of FIPS 180-4, the content of the example file, and the string that
  \<^verbatim>\<open>calculateHash\<close> hashes for a node without children.
\<close>

lemma sha256_of_abc:
  "sha256 ''abc'' = ''ba7816bf8f01cfea414140de5dae2223b00361a396177a9cb410ff61f20015ad''"
  by code_simp

lemma sha256_of_hello:
  "sha256 ''hello'' = ''2cf24dba5fb0a30e26e83b2ac5b9e29e1b161e5c1fa7425e73043362938b9824''"
  by code_simp

lemma sha256_of_empty_literal:
  "sha256 ''empty'' = ''2e1cfa82b035c26cbbbdae632cea070514eb8b773f616aaeaf668e2f0be8f10d''"
  by code_simp

lemmas tree_eval =
  addOrUpdateFile_def createFileNode_def rebuildTree_def MerkleNode_def calculateHash_def
  recalculateHash_def updateS3Url_def removeFile_def newMerkleTree_def truthy_def
  getRootHash_def fromJSON_def toJSON_def getAllFiles_def getFile_def Map_has_def
  List.map_filter_def

section \<open>The root hash\<close>

lemma leaves_rebuildTree [simp]: "leaves (rebuildTree t) = leaves t"
  by (simp add: rebuildTree_def split: list.splits)

lemma rebuildTree_idem [simp]: "rebuildTree (rebuildTree t) = rebuildTree t"
  by (simp add: rebuildTree_def split: list.splits)

lemma update_absent: "k \<notin> fst ` set al \<Longrightarrow> AList.update k v al = al @ [(k, v)]"
  by (induction al) auto

text \<open>The hashes of a level depend on the hashes of the level below only.\<close>

lemma nextLevel_hashes:
  "map node_hash ns = map node_hash ns' \<Longrightarrow>
   map node_hash (nextLevel ns) = map node_hash (nextLevel ns')"
proof (induction ns arbitrary: ns' rule: nextLevel.induct)
  case 1
  then show ?case by simp
next
  case (2 l)
  then obtain l' where "ns' = [l']" "node_hash l' = node_hash l" by auto
  then show ?case by (simp add: MerkleNode_def calculateHash_def)
next
  case (3 l r rest)
  then obtain l' r' rest' where ns': "ns' = l' # r' # rest'" "node_hash l' = node_hash l"
    "node_hash r' = node_hash r" "map node_hash rest = map node_hash rest'"
    by (auto simp: map_eq_Cons_conv Cons_eq_map_conv)
  with 3 show ?case by (simp add: MerkleNode_def calculateHash_def)
qed

lemma buildLevels_hashes:
  "map node_hash ns = map node_hash ns' \<Longrightarrow>
   map node_hash (buildLevels ns) = map node_hash (buildLevels ns')"
proof (induction ns arbitrary: ns' rule: buildLevels.induct)
  case (1 currentLevel)
  have len: "length ns' = length currentLevel"
    using "1.prems" by (metis length_map)
  show ?case
  proof (cases "length currentLevel > 1")
    case True
    have "map node_hash (buildLevels (nextLevel currentLevel))
        = map node_hash (buildLevels (nextLevel ns'))"
      using "1.IH" [OF True nextLevel_hashes [OF "1.prems"]] .
    then show ?thesis
      using True len by (simp add: buildLevels.simps [of currentLevel] buildLevels.simps [of ns'])
  next
    case False
    then show ?thesis
      using len "1.prems" by (simp add: buildLevels.simps [of currentLevel] buildLevels.simps [of ns'])
  qed
qed

lemma rebuildTree_rootHash_cong:
  assumes "map (node_hash \<circ> snd) (leaves t) = map (node_hash \<circ> snd) (leaves t')"
  shows "getRootHash (rebuildTree t) = getRootHash (rebuildTree t')"
proof -
  let ?ns = "map snd (leaves t)" and ?ns' = "map snd (leaves t')"
  have eq: "map node_hash ?ns = map node_hash ?ns'" using assms by simp
  then have len: "length ?ns = length ?ns'" by (metis length_map)
  have bl: "map node_hash (buildLevels ?ns) = map node_hash (buildLevels ?ns')"
    by (rule buildLevels_hashes [OF eq])
  show ?thesis
  proof (cases ?ns)
    case Nil
    with len have "?ns' = []" by simp
    with Nil show ?thesis by (simp add: rebuildTree_def getRootHash_def)
  next
    case (Cons n ms)
    then obtain n' ms' where c': "?ns' = n' # ms'" using len by (cases ?ns') auto
    have h: "node_hash n = node_hash n'" "length ms = length ms'"
      using eq len Cons c' by auto
    show ?thesis
    proof (cases ms)
      case Nil
      with h have "ms' = []" by simp
      with Nil Cons c' h show ?thesis by (simp add: rebuildTree_def getRootHash_def)
    next
      case (Cons k ks)
      then obtain k' ks' where "ms' = k' # ks'" using h by (cases ms') auto
      with Cons \<open>?ns = n # ms\<close> c' bl show ?thesis
        by (auto simp: rebuildTree_def getRootHash_def split: list.splits)
    qed
  qed
qed

text \<open>A path that is new to the tree gets a leaf whose node hash is the hash of \<^verbatim>\<open>'empty'\<close>.\<close>

lemma addOrUpdateFile_fresh:
  assumes "filePath \<notin> fst ` set (leaves t)"
  shows "\<exists>n. leaves (addOrUpdateFile now filePath m t) = leaves t @ [(filePath, n)]
             \<and> node_hash n = sha256 ''empty''"
proof -
  have "map_of (leaves t) filePath = None"
    using assms by (simp add: map_of_eq_None_iff)
  then show ?thesis
    using assms
    by (simp add: addOrUpdateFile_def createFileNode_def update_absent MerkleNode_def
        calculateHash_def)
qed

lemma addOrUpdateFile_rebuilt:
  "rebuildTree (addOrUpdateFile now filePath m t) = addOrUpdateFile now filePath m t"
  by (simp add: addOrUpdateFile_def split: option.splits)

lemma addAll_rebuilt:
  "rebuildTree t = t \<Longrightarrow> rebuildTree (addAll ops t) = addAll ops t"
  by (induction ops arbitrary: t) (auto simp: addOrUpdateFile_rebuilt)

lemma addAll_fresh_hashes:
  assumes "distinct (map (fst \<circ> snd) ops)"
    and "(fst \<circ> snd) ` set ops \<inter> fst ` set (leaves t) = {}"
  shows "map (node_hash \<circ> snd) (leaves (addAll ops t))
       = map (node_hash \<circ> snd) (leaves t) @ replicate (length ops) (sha256 ''empty'')"
  using assms
proof (induction ops arbitrary: t)
  case Nil
  then show ?case by simp
next
  case (Cons op ops)
  obtain now filePath m where op: "op = (now, filePath, m)" by (cases op) auto
  let ?t = "addOrUpdateFile now filePath m t"
  have fresh: "filePath \<notin> fst ` set (leaves t)"
    using Cons.prems(2) op by auto
  obtain n where n: "leaves ?t = leaves t @ [(filePath, n)]" "node_hash n = sha256 ''empty''"
    using addOrUpdateFile_fresh [OF fresh] by blast
  have d: "distinct (map (fst \<circ> snd) ops)" using Cons.prems(1) by (simp add: comp_def)
  have disj: "(fst \<circ> snd) ` set ops \<inter> fst ` set (leaves ?t) = {}"
    using Cons.prems op n by auto
  show ?case
    using Cons.IH [OF d disj] n op
    by (simp add: replicate_app_Cons_same)
qed

text \<open>
  C1. The entries of a set, each with its own path, are inserted into a fresh tree by
  \<^verbatim>\<open>addOrUpdateFile\<close> in two orders (the clock may differ from call to call): the two
  trees have the same root hash. On this code every leaf made for a new path has the node
  hash \<^verbatim>\<open>sha256('empty')\<close> (\<open>addOrUpdateFile_fresh\<close>), so the root hash of such a
  tree is fixed by the number of its entries.
\<close>

theorem rootHash_insertion_order:
  assumes "distinct (map (fst \<circ> snd) ops)"
    and "mset (map snd ops') = mset (map snd ops)"
  shows "getRootHash (addAll ops' newMerkleTree) = getRootHash (addAll ops newMerkleTree)"
proof -
  have paths: "mset (map (fst \<circ> snd) ops') = mset (map (fst \<circ> snd) ops)"
    using assms(2) by (metis map_map mset_map)
  have d': "distinct (map (fst \<circ> snd) ops')"
    using assms(1) paths by (metis mset_eq_imp_distinct_iff)
  have len: "length ops' = length ops"
    using assms(2) by (metis length_map size_mset)
  have new: "rebuildTree newMerkleTree = newMerkleTree"
    by (simp add: rebuildTree_def newMerkleTree_def)
  have h: "map (node_hash \<circ> snd) (leaves (addAll ops' newMerkleTree))
         = map (node_hash \<circ> snd) (leaves (addAll ops newMerkleTree))"
    using addAll_fresh_hashes [OF assms(1), of newMerkleTree]
      addAll_fresh_hashes [OF d', of newMerkleTree] len
    by (simp add: newMerkleTree_def)
  have "getRootHash (rebuildTree (addAll ops' newMerkleTree))
      = getRootHash (rebuildTree (addAll ops newMerkleTree))"
    by (rule rebuildTree_rootHash_cong [OF h])
  then show ?thesis
    by (simp add: addAll_rebuilt [OF new])
qed

theorem rootHash_insertion_order_witness:
  "distinct (map (fst \<circ> snd)
     [(''2024-05-01T10:00:00.000Z'', ''notes.txt'', notes_meta),
      (''2024-05-01T10:00:05.000Z'', ''todo.txt'', todo_meta)])
   \<and> mset (map snd [(''2024-05-02T08:00:00.000Z'', ''todo.txt'', todo_meta),
                     (''2024-05-02T08:00:01.000Z'', ''notes.txt'', notes_meta)])
     = mset (map snd [(''2024-05-01T10:00:00.000Z'', ''notes.txt'', notes_meta),
                      (''2024-05-01T10:00:05.000Z'', ''todo.txt'', todo_meta)])
   \<and> getRootHash (addAll [(''2024-05-02T08:00:00.000Z'', ''todo.txt'', todo_meta),
                          (''2024-05-02T08:00:01.000Z'', ''notes.txt'', notes_meta)]
                         newMerkleTree)
     = getRootHash (addAll [(''2024-05-01T10:00:00.000Z'', ''notes.txt'', notes_meta),
                            (''2024-05-01T10:00:05.000Z'', ''todo.txt'', todo_meta)]
                           newMerkleTree)"
proof -
  have d: "distinct (map (fst \<circ> snd)
     [(''2024-05-01T10:00:00.000Z'', ''notes.txt'', notes_meta),
      (''2024-05-01T10:00:05.000Z'', ''todo.txt'', todo_meta)])"
    by simp
  have m: "mset (map snd [(''2024-05-02T08:00:00.000Z'', ''todo.txt'', todo_meta),
                          (''2024-05-02T08:00:01.000Z'', ''notes.txt'', notes_meta)])
     = mset (map snd [(''2024-05-01T10:00:00.000Z'', ''notes.txt'', notes_meta),
                      (''2024-05-01T10:00:05.000Z'', ''todo.txt'', todo_meta)])"
    by simp
  show ?thesis
    using d m rootHash_insertion_order [OF d m] by blast
qed

text \<open>
  C7: a tree rebuilt by \<^verbatim>\<open>fromJSON\<close> from the \<^verbatim>\<open>toJSON\<close> of a tree should have the
  root hash of that tree. The code does not keep it: the tree holding \<^verbatim>\<open>notes.txt\<close>
  after its upload (\<^verbatim>\<open>updateS3Url\<close> has recomputed the leaf's hash) has the content
  hash of the file as its root hash, and the tree rebuilt from its snapshot has the hash of
  \<^verbatim>\<open>'empty'\<close>, which the constructor gives to every leaf it makes.
\<close>

theorem roundtrip_rootHash_differs:
  "getRootHash uploaded_tree
     = Some ''2cf24dba5fb0a30e26e83b2ac5b9e29e1b161e5c1fa7425e73043362938b9824''
   \<and> getRootHash (fromJSON ''2024-05-01T10:01:00.000Z''
                     (toJSON ''2024-05-01T10:00:30.000Z'' uploaded_tree) newMerkleTree)
     = Some ''2e1cfa82b035c26cbbbdae632cea070514eb8b773f616aaeaf668e2f0be8f10d''
   \<and> getRootHash (fromJSON ''2024-05-01T10:01:00.000Z''
                     (toJSON ''2024-05-01T10:00:30.000Z'' uploaded_tree) newMerkleTree)
     \<noteq> getRootHash uploaded_tree"
  by (simp add: uploaded_tree_def notes_tree_def notes_meta_def tree_eval
      sha256_of_empty_literal)

text \<open>
  C10: \<^verbatim>\<open>updateS3Url\<close> should leave the root hash as it is, a leaf's node hash being
  its content hash. The code does not: \<^verbatim>\<open>notes.txt\<close> is added to a fresh tree and then
  uploaded; before \<^verbatim>\<open>updateS3Url\<close> the root hash is the hash of \<^verbatim>\<open>'empty'\<close>, after it
  the content hash of the file. (What \<^verbatim>\<open>updateS3Url\<close> does keep is in the next
  section.)
\<close>

theorem updateS3Url_changes_rootHash:
  "getRootHash notes_tree
     = Some ''2e1cfa82b035c26cbbbdae632cea070514eb8b773f616aaeaf668e2f0be8f10d''
   \<and> updateS3Url ''2024-05-01T10:00:02.000Z'' ''notes.txt''
        ''http://minio:9000/files/notes.txt'' notes_tree = (uploaded_tree, True)
   \<and> getRootHash uploaded_tree
     = Some ''2cf24dba5fb0a30e26e83b2ac5b9e29e1b161e5c1fa7425e73043362938b9824''
   \<and> getRootHash uploaded_tree \<noteq> getRootHash notes_tree"
  by (simp add: uploaded_tree_def notes_tree_def notes_meta_def tree_eval
      sha256_of_empty_literal)

section \<open>Trees made by the operations of the class\<close>

lemma tree_inv_new: "tree_inv newMerkleTree"
  by (simp add: tree_inv_def newMerkleTree_def)

lemma tree_inv_rebuildTree [simp]: "tree_inv (rebuildTree t) = tree_inv t"
  by (simp add: tree_inv_def)

lemma list_all_update:
  "list_all (\<lambda>(p, n). Q p n) al \<Longrightarrow> Q k v \<Longrightarrow> list_all (\<lambda>(p, n). Q p n) (AList.update k v al)"
  by (induction al) auto

lemma tree_inv_createFileNode:
  "tree_inv t \<Longrightarrow> tree_inv (createFileNode now filePath m t)"
  unfolding tree_inv_def createFileNode_def
  by (auto simp: distinct_update MerkleNode_def intro!: list_all_update)

lemma tree_inv_addOrUpdateFile:
  assumes "tree_inv t"
  shows "tree_inv (addOrUpdateFile now filePath m t)"
proof (cases "map_of (leaves t) filePath")
  case None
  then show ?thesis
    using assms by (simp add: addOrUpdateFile_def tree_inv_createFileNode)
next
  case (Some existingNode)
  then have mem: "(filePath, existingNode) \<in> set (leaves t)" by (rule map_of_SomeD)
  then have "case data existingNode of Some d \<Rightarrow> file_path d = filePath | None \<Rightarrow> False"
    using assms by (auto simp: tree_inv_def list_all_iff)
  then show ?thesis
    using assms Some
    by (auto simp: addOrUpdateFile_def tree_inv_def distinct_update recalculateHash_def
        split: option.splits intro!: list_all_update)
qed

lemma tree_inv_updateS3Url:
  assumes "tree_inv t"
  shows "tree_inv (fst (updateS3Url now filePath s3Url t))"
proof (cases "map_of (leaves t) filePath")
  case None
  then show ?thesis using assms by (simp add: updateS3Url_def)
next
  case (Some node)
  then have mem: "(filePath, node) \<in> set (leaves t)" by (rule map_of_SomeD)
  then have "case data node of Some d \<Rightarrow> file_path d = filePath | None \<Rightarrow> False"
    using assms by (auto simp: tree_inv_def list_all_iff)
  then show ?thesis
    using assms Some
    by (auto simp: updateS3Url_def tree_inv_def distinct_update recalculateHash_def
        split: option.splits intro!: list_all_update)
qed

lemma tree_inv_removeFile:
  assumes "tree_inv t"
  shows "tree_inv (fst (removeFile filePath t))"
proof -
  have d: "distinct (map fst (AList.delete filePath (leaves t)))"
    using assms by (simp add: tree_inv_def distinct_delete)
  have "set (AList.delete filePath (leaves t)) \<subseteq> set (leaves t)"
    by (auto simp: AList.delete_eq)
  then have l: "list_all (\<lambda>(p, n). case data n of Some d \<Rightarrow> file_path d = p | None \<Rightarrow> False)
                  (AList.delete filePath (leaves t))"
    using assms by (auto simp: tree_inv_def list_all_iff)
  show ?thesis
    using assms d l by (simp add: removeFile_def tree_inv_def)
qed

lemma tree_inv_fromJSON: "tree_inv (fromJSON now snap t)"
proof -
  have "tree_inv acc \<Longrightarrow>
        tree_inv (foldl (\<lambda>acc file. createFileNode now (file_path file) file acc) acc fs)"
    for acc and fs :: "file_entry list"
    by (induction fs arbitrary: acc) (auto simp: tree_inv_createFileNode)
  moreover have "tree_inv (t\<lparr>leaves := []\<rparr>)" by (simp add: tree_inv_def)
  ultimately show ?thesis by (simp add: fromJSON_def)
qed

lemma tree_inv_distinct_paths:
  assumes "tree_inv t"
  shows "distinct (map file_path (getAllFiles t))"
proof -
  have "list_all (\<lambda>(p, n). case data n of Some d \<Rightarrow> file_path d = p | None \<Rightarrow> False) al \<Longrightarrow>
        map file_path (List.map_filter (\<lambda>(filePath, node). data node) al) = map fst al"
    for al :: "(string \<times> MerkleNode) list"
    by (induction al) (auto split: option.splits)
  then show ?thesis
    using assms by (simp add: tree_inv_def getAllFiles_def)
qed

section \<open>What updateS3Url keeps\<close>

text \<open>
  What \<^verbatim>\<open>updateS3Url\<close> does keep: on a tree made by the operations of the class, the
  entry of the path gets the URL and the time of the call, and every other entry is as it
  was.
\<close>

lemma updateS3Url_frame:
  assumes "tree_inv t" and "getFile filePath t = Some d"
  shows "getAllFiles (fst (updateS3Url now filePath s3Url t))
       = map (\<lambda>f. if file_path f = filePath
                    then f\<lparr>s3_url := Some s3Url, timestamp := Some now\<rparr> else f)
             (getAllFiles t)"
proof -
  obtain node where node: "map_of (leaves t) filePath = Some node" "data node = Some d"
    using assms(2) by (auto simp: getFile_def split: option.splits)
  have step: "list_all (\<lambda>(p, n). case data n of Some d \<Rightarrow> file_path d = p | None \<Rightarrow> False) al \<Longrightarrow>
        map_of al filePath = Some node \<Longrightarrow> data node' = Some (d\<lparr>s3_url := Some s3Url, timestamp := Some now\<rparr>) \<Longrightarrow>
        distinct (map fst al) \<Longrightarrow>
        List.map_filter (\<lambda>(filePath, node). data node) (AList.update filePath node' al)
          = map (\<lambda>f. if file_path f = filePath
                       then f\<lparr>s3_url := Some s3Url, timestamp := Some now\<rparr> else f)
                (List.map_filter (\<lambda>(filePath, node). data node) al)"
    for al node'
  proof (induction al)
    case Nil
    then show ?case by simp
  next
    case (Cons a al)
    obtain k n where a: "a = (k, n)" by (cases a)
    show ?case
    proof (cases "k = filePath")
      case True
      then have n: "n = node" using Cons.prems(2) a by simp
      have notin: "filePath \<notin> fst ` set al" using Cons.prems(4) a True by auto
      have rest: "List.map_filter (\<lambda>(filePath, node). data node) al
          = map (\<lambda>f. if file_path f = filePath
                       then f\<lparr>s3_url := Some s3Url, timestamp := Some now\<rparr> else f)
                (List.map_filter (\<lambda>(filePath, node). data node) al)"
      proof -
        have "\<forall>f \<in> set (List.map_filter (\<lambda>(filePath, node). data node) al). file_path f \<noteq> filePath"
          using Cons.prems(1) notin a
          by (auto simp: List.map_filter_def list_all_iff split: option.splits) force
        then show ?thesis by (simp add: map_idI)
      qed
      have "file_path d = filePath"
        using Cons.prems(1) a True n node(2) by simp
      then show ?thesis
        using a True n node(2) Cons.prems(3) rest by simp
    next
      case False
      then have "map_of al filePath = Some node" using Cons.prems(2) a by simp
      moreover have "list_all (\<lambda>(p, n). case data n of Some d \<Rightarrow> file_path d = p | None \<Rightarrow> False) al"
        using Cons.prems(1) by simp
      moreover have "distinct (map fst al)" using Cons.prems(4) by simp
      ultimately have IH: "List.map_filter (\<lambda>(filePath, node). data node) (AList.update filePath node' al)
          = map (\<lambda>f. if file_path f = filePath
                       then f\<lparr>s3_url := Some s3Url, timestamp := Some now\<rparr> else f)
                (List.map_filter (\<lambda>(filePath, node). data node) al)"
        using Cons.IH Cons.prems(3) by blast
      have "case data n of Some d \<Rightarrow> file_path d = k | None \<Rightarrow> False"
        using Cons.prems(1) a by simp
      then show ?thesis
        using a False IH by (auto split: option.splits)
    qed
  qed
  show ?thesis
    using assms(1) node
    by (simp add: updateS3Url_def getAllFiles_def tree_inv_def step recalculateHash_def)
qed

text \<open>
  When the hash of the leaf has been recomputed before (its node hash is its content hash),
  \<^verbatim>\<open>updateS3Url\<close> keeps the root hash.
\<close>

lemma update_same_hash:
  "map_of al k = Some n \<Longrightarrow> node_hash n' = node_hash n \<Longrightarrow>
   map (node_hash \<circ> snd) (AList.update k n' al) = map (node_hash \<circ> snd) al"
  by (induction al) (auto split: if_splits)

lemma updateS3Url_keeps_rootHash_of_rehashed_leaf:
  assumes "map_of (leaves t) filePath = Some node" and "data node = Some d"
    and "isLeaf node" and "node_hash node = hash d"
  shows "getRootHash (fst (updateS3Url now filePath s3Url t)) = getRootHash (rebuildTree t)"
proof -
  let ?n' = "recalculateHash (Node (Some (d\<lparr>s3_url := Some s3Url, timestamp := Some now\<rparr>))
                (left node) (right node) (node_hash node) (isLeaf node))"
  have "node_hash ?n' = node_hash node"
    using assms(3,4) by (simp add: recalculateHash_def calculateHash_def)
  then have "map (node_hash \<circ> snd) (AList.update filePath ?n' (leaves t))
           = map (node_hash \<circ> snd) (leaves t)"
    by (rule update_same_hash [OF assms(1)])
  then have "getRootHash (rebuildTree (t\<lparr>leaves := AList.update filePath ?n' (leaves t)\<rparr>))
           = getRootHash (rebuildTree t)"
    by (intro rebuildTree_rootHash_cong) simp
  then show ?thesis
    using assms(1,2) by (simp add: updateS3Url_def)
qed

section \<open>The diff engine\<close>

lemma filesByPath_append_aux:
  "distinct (map file_path fs) \<Longrightarrow> file_path ` set fs \<inter> fst ` set m = {} \<Longrightarrow>
   foldl (\<lambda>m file. AList.update (file_path file) file m) m fs
     = m @ map (\<lambda>f. (file_path f, f)) fs"
proof (induction fs arbitrary: m)
  case Nil
  then show ?case by simp
next
  case (Cons f fs)
  have fresh: "file_path f \<notin> fst ` set m" using Cons.prems(2) by auto
  have step: "AList.update (file_path f) f m = m @ [(file_path f, f)]"
    by (rule update_absent [OF fresh])
  have disj: "file_path ` set fs \<inter> fst ` set (m @ [(file_path f, f)]) = {}"
    using Cons.prems by auto
  have d: "distinct (map file_path fs)" using Cons.prems(1) by simp
  show ?case
    using Cons.IH [OF d disj] step by simp
qed

lemma filesByPath_distinct:
  "distinct (map file_path fs) \<Longrightarrow> filesByPath fs = map (\<lambda>f. (file_path f, f)) fs"
  using filesByPath_append_aux [of fs "[]"] by (simp add: filesByPath_def)

lemma Map_has_map_of: "Map_has m k \<longleftrightarrow> map_of m k \<noteq> None"
  by (simp add: Map_has_def map_of_eq_None_iff)

lemma findAddedModified_added:
  "added (findAddedModified xs other d)
     = added d @ map snd (filter (\<lambda>(p, f). \<not> Map_has other p) xs)"
  by (induction xs other d rule: findAddedModified.induct) (auto split: option.splits)

lemma findAddedModified_modified:
  "modified (findAddedModified xs other d)
     = modified d @ map snd (filter (\<lambda>(p, f). \<exists>g. map_of other p = Some g
           \<and> (hash f \<noteq> hash g \<or> timestamp f \<noteq> timestamp g)) xs)"
  by (induction xs other d rule: findAddedModified.induct)
     (auto split: option.splits simp: Map_has_map_of)

lemma findAddedModified_deleted:
  "deleted (findAddedModified xs other d) = deleted d"
  by (induction xs other d rule: findAddedModified.induct) (auto split: option.splits)

lemma findDeleted_deleted:
  "deleted (findDeleted xs mine d)
     = deleted d @ map snd (filter (\<lambda>(p, f). \<not> Map_has mine p) xs)"
  by (induction xs mine d rule: findDeleted.induct) auto

lemma findDeleted_added: "added (findDeleted xs mine d) = added d"
  by (induction xs mine d rule: findDeleted.induct) auto

lemma findDeleted_modified: "modified (findDeleted xs mine d) = modified d"
  by (induction xs mine d rule: findDeleted.induct) auto

lemma filter_keyed:
  "map snd (filter (\<lambda>(p, f). P p f) (map (\<lambda>f. (file_path f, f)) fs))
     = filter (\<lambda>f. P (file_path f) f) fs"
  by (induction fs) auto

lemma Map_has_keyed: "Map_has (map (\<lambda>f. (file_path f, f)) fs) p \<longleftrightarrow> p \<in> file_path ` set fs"
  by (auto simp: Map_has_def image_iff)

lemma map_of_keyed:
  "distinct (map file_path fs) \<Longrightarrow>
   map_of (map (\<lambda>f. (file_path f, f)) fs) p = Some g \<longleftrightarrow> g \<in> set fs \<and> file_path g = p"
proof (induction fs)
  case Nil
  then show ?case by simp
next
  case (Cons f fs)
  then show ?case by (auto simp: image_iff)
qed

text \<open>
  C5. For two trees whose entries have pairwise different paths (every tree made by the
  operations of the class, see \<open>tree_inv_distinct_paths\<close>), \<^verbatim>\<open>mine.getDifferences(theirs)\<close>
  returns: in \<^verbatim>\<open>added\<close> the entries of \<open>mine\<close> whose path no entry of \<open>theirs\<close> has; in
  \<^verbatim>\<open>modified\<close> the entries of \<open>mine\<close> for which \<open>theirs\<close> has an entry of the same path
  with another hash or another timestamp; in \<^verbatim>\<open>deleted\<close> the entries of \<open>theirs\<close> whose
  path no entry of \<open>mine\<close> has; each list in the order of the tree, and no entry in two of
  the lists.
\<close>

theorem getDifferences_by_path:
  assumes "distinct (map file_path (getAllFiles mine))"
    and "distinct (map file_path (getAllFiles theirs))"
  shows "added (getDifferences mine theirs)
           = filter (\<lambda>f. file_path f \<notin> file_path ` set (getAllFiles theirs)) (getAllFiles mine)
       \<and> modified (getDifferences mine theirs)
           = filter (\<lambda>f. \<exists>g \<in> set (getAllFiles theirs). file_path g = file_path f
                          \<and> (hash f \<noteq> hash g \<or> timestamp f \<noteq> timestamp g))
                    (getAllFiles mine)
       \<and> deleted (getDifferences mine theirs)
           = filter (\<lambda>g. file_path g \<notin> file_path ` set (getAllFiles mine)) (getAllFiles theirs)
       \<and> set (added (getDifferences mine theirs)) \<inter> set (modified (getDifferences mine theirs)) = {}
       \<and> set (added (getDifferences mine theirs)) \<inter> set (deleted (getDifferences mine theirs)) = {}
       \<and> set (modified (getDifferences mine theirs)) \<inter> set (deleted (getDifferences mine theirs)) = {}"
proof -
  let ?Fm = "getAllFiles mine" and ?Ft = "getAllFiles theirs"
  let ?d = "getDifferences mine theirs"
  have m: "filesByPath ?Fm = map (\<lambda>f. (file_path f, f)) ?Fm"
    by (rule filesByPath_distinct [OF assms(1)])
  have t: "filesByPath ?Ft = map (\<lambda>f. (file_path f, f)) ?Ft"
    by (rule filesByPath_distinct [OF assms(2)])
  have a: "added ?d = filter (\<lambda>f. file_path f \<notin> file_path ` set ?Ft) ?Fm"
    by (simp add: getDifferences_def Let_def findDeleted_added findAddedModified_added m t
        filter_keyed Map_has_keyed)
  have mo: "modified ?d
      = filter (\<lambda>f. \<exists>g \<in> set ?Ft. file_path g = file_path f
                     \<and> (hash f \<noteq> hash g \<or> timestamp f \<noteq> timestamp g)) ?Fm"
  proof -
    have "modified ?d = filter (\<lambda>f. \<exists>g. map_of (map (\<lambda>f. (file_path f, f)) ?Ft) (file_path f) = Some g
                     \<and> (hash f \<noteq> hash g \<or> timestamp f \<noteq> timestamp g)) ?Fm"
      by (simp add: getDifferences_def Let_def findDeleted_modified findAddedModified_modified
          m t filter_keyed)
    also have "\<dots> = filter (\<lambda>f. \<exists>g \<in> set ?Ft. file_path g = file_path f
                     \<and> (hash f \<noteq> hash g \<or> timestamp f \<noteq> timestamp g)) ?Fm"
      by (rule filter_cong) (auto simp: map_of_keyed [OF assms(2)])
    finally show ?thesis .
  qed
  have de: "deleted ?d = filter (\<lambda>g. file_path g \<notin> file_path ` set ?Fm) ?Ft"
    by (simp add: getDifferences_def Let_def findDeleted_deleted findAddedModified_deleted m t
        filter_keyed Map_has_keyed)
  have am: "set (added ?d) \<inter> set (modified ?d) = {}"
    unfolding a mo by (fastforce simp: image_iff)
  have ad: "set (added ?d) \<inter> set (deleted ?d) = {}"
    unfolding a de by (fastforce simp: image_iff)
  have md: "set (modified ?d) \<inter> set (deleted ?d) = {}"
    unfolding mo de by (fastforce simp: image_iff)
  show ?thesis
    using a mo de am ad md by blast
qed

theorem getDifferences_by_path_witness:
  "map file_path (getAllFiles mine_tree) = [''notes.txt'', ''todo.txt'']
   \<and> map file_path (getAllFiles theirs_tree) = [''old.txt'', ''notes.txt'']
   \<and> map file_path (added (getDifferences mine_tree theirs_tree)) = [''todo.txt'']
   \<and> map file_path (modified (getDifferences mine_tree theirs_tree)) = [''notes.txt'']
   \<and> map file_path (deleted (getDifferences mine_tree theirs_tree)) = [''old.txt'']"
proof -
  have m: "map file_path (getAllFiles mine_tree) = [''notes.txt'', ''todo.txt'']"
    by (simp add: mine_tree_def notes_meta_def todo_meta_def tree_eval)
  have t: "map file_path (getAllFiles theirs_tree) = [''old.txt'', ''notes.txt'']"
    by (simp add: theirs_tree_def notes_meta_def old_meta_def tree_eval)
  have dm: "distinct (map file_path (getAllFiles mine_tree))" unfolding m by simp
  have dt: "distinct (map file_path (getAllFiles theirs_tree))" unfolding t by simp
  note d = getDifferences_by_path [OF dm dt]
  show ?thesis
    using m t d
    by (simp add: mine_tree_def theirs_tree_def notes_meta_def todo_meta_def old_meta_def
        tree_eval)
qed

lemma distinct_filesByPath_aux:
  "distinct (map fst m) \<Longrightarrow>
   distinct (map fst (foldl (\<lambda>m file. AList.update (file_path file) file m) m fs))"
  by (induction fs arbitrary: m) (auto simp: distinct_update)

lemma distinct_filesByPath: "distinct (map fst (filesByPath fs))"
  by (simp add: filesByPath_def distinct_filesByPath_aux)

text \<open>C8. \<^verbatim>\<open>A.getDifferences(A)\<close> has three empty lists, for every tree.\<close>

theorem getDifferences_self: "getDifferences A A = \<lparr>added = [], modified = [], deleted = []\<rparr>"
proof -
  let ?M = "filesByPath (getAllFiles A)"
  have d: "distinct (map fst ?M)" by (rule distinct_filesByPath)
  have has: "\<And>p f. (p, f) \<in> set ?M \<Longrightarrow> Map_has ?M p"
    by (force simp: Map_has_def)
  have get: "\<And>p f g. (p, f) \<in> set ?M \<Longrightarrow> map_of ?M p = Some g \<Longrightarrow> g = f"
    using d by (metis map_of_is_SomeI option.inject)
  have a: "filter (\<lambda>(p, f). \<not> Map_has ?M p) ?M = []"
    using has by (auto simp: filter_empty_conv)
  have m: "filter (\<lambda>(p, f). \<exists>g. map_of ?M p = Some g
           \<and> (hash f \<noteq> hash g \<or> timestamp f \<noteq> timestamp g)) ?M = []"
    using get by (auto simp: filter_empty_conv)
  have "added (getDifferences A A) = []"
    unfolding getDifferences_def Let_def findDeleted_added findAddedModified_added a by simp
  moreover have "modified (getDifferences A A) = []"
    unfolding getDifferences_def Let_def findDeleted_modified findAddedModified_modified m
    by simp
  moreover have "deleted (getDifferences A A) = []"
    unfolding getDifferences_def Let_def findDeleted_deleted findAddedModified_deleted a
    by simp
  ultimately show ?thesis by simp
qed

section \<open>The two implementations of the diff\<close>

lemma update_map_values:
  "AList.update k (g v) (map (\<lambda>(p, x). (p, g x)) al) = map (\<lambda>(p, x). (p, g x)) (AList.update k v al)"
  by (induction al) auto

lemma fromJSON_loop_leaves:
  "leaves (foldl (\<lambda>acc file. createFileNode now (file_path file) file acc) t fs)
     = foldl (\<lambda>m file. AList.update (file_path file) (leafOf now file) m) (leaves t) fs"
  by (induction fs arbitrary: t) (simp_all add: createFileNode_def leafOf_def)

lemma loop_map_values:
  "foldl (\<lambda>m file. AList.update (file_path file) (g file) m) (map (\<lambda>(p, x). (p, g x)) m0) fs
     = map (\<lambda>(p, x). (p, g x)) (foldl (\<lambda>m file. AList.update (file_path file) file m) m0 fs)"
  by (induction fs arbitrary: m0) (simp_all add: update_map_values)

lemma leaves_fromJSON:
  "leaves (fromJSON now snap t)
     = map (\<lambda>(p, f). (p, leafOf now f)) (filesByPath (snapshot_files snap))"
  using loop_map_values [of "leafOf now" "[]" "snapshot_files snap"]
  by (simp add: fromJSON_def fromJSON_loop_leaves filesByPath_def snapshot_files_def)

lemma set_update_subset: "set (AList.update k v al) \<subseteq> insert (k, v) (set al)"
  by (induction al) auto

lemma filesByPath_values_aux:
  "(k, f) \<in> set (foldl (\<lambda>m file. AList.update (file_path file) file m) m0 fs) \<Longrightarrow>
   (k, f) \<in> set m0 \<or> (f \<in> set fs \<and> file_path f = k)"
proof (induction fs arbitrary: m0)
  case Nil
  then show ?case by simp
next
  case (Cons a fs)
  from Cons.IH [OF Cons.prems [simplified]]
  consider "(k, f) \<in> set (AList.update (file_path a) a m0)" | "f \<in> set fs \<and> file_path f = k"
    by blast
  then show ?case
  proof cases
    case 1
    then have "(k, f) \<in> insert (file_path a, a) (set m0)"
      using set_update_subset [of "file_path a" a m0] by blast
    then show ?thesis by auto
  next
    case 2
    then show ?thesis by simp
  qed
qed

lemma filesByPath_values:
  "(k, f) \<in> set (filesByPath fs) \<Longrightarrow> f \<in> set fs \<and> file_path f = k"
  using filesByPath_values_aux [of k f "[]" fs] by (simp add: filesByPath_def)

lemma map_keyed_id:
  "(\<And>k f. (k, f) \<in> set m \<Longrightarrow> file_path f = k) \<Longrightarrow> map (\<lambda>f. (file_path f, f)) (map snd m) = m"
  by (induction m) auto

lemma filesByPath_idem: "filesByPath (map snd (filesByPath fs)) = filesByPath fs"
proof -
  let ?M = "filesByPath fs"
  have keys: "map file_path (map snd ?M) = map fst ?M"
    using filesByPath_values [of _ _ fs] by (induction ?M) auto
  have "distinct (map file_path (map snd ?M))"
    unfolding keys by (rule distinct_filesByPath)
  then have "filesByPath (map snd ?M) = map (\<lambda>f. (file_path f, f)) (map snd ?M)"
    by (rule filesByPath_distinct)
  also have "\<dots> = ?M"
    by (rule map_keyed_id) (simp add: filesByPath_values)
  finally show ?thesis .
qed

lemma data_leafOf_normal: "wire_normal f \<Longrightarrow> data (leafOf now f) = Some f"
  by (cases f) (auto simp: leafOf_def MerkleNode_def wire_normal_def)

lemma getAllFiles_fromJSON:
  assumes "\<forall>f \<in> set (snapshot_files snap). wire_normal f"
  shows "getAllFiles (fromJSON now snap t) = map snd (filesByPath (snapshot_files snap))"
proof -
  have "\<forall>(k, f) \<in> set m. wire_normal f \<Longrightarrow>
        List.map_filter (\<lambda>(filePath, node). data node) (map (\<lambda>(p, f). (p, leafOf now f)) m)
          = map snd m" for m :: "(string \<times> file_entry) list"
    by (induction m) (auto simp: data_leafOf_normal)
  moreover have "\<forall>(k, f) \<in> set (filesByPath (snapshot_files snap)). wire_normal f"
    using assms filesByPath_values by blast
  ultimately show ?thesis
    by (simp add: getAllFiles_def leaves_fromJSON)
qed

lemma server_findAddedModified_eq:
  "server_findAddedModified xs other d = findAddedModified xs other d"
  by (induction xs other d rule: findAddedModified.induct) simp_all

lemma server_findDeleted_eq: "server_findDeleted xs mine d = findDeleted xs mine d"
  by (induction xs mine d rule: findDeleted.induct) simp_all

lemma tree_files_server_fromJSON:
  "tree_files (server_fromJSON snap) = filesByPath (snapshot_files snap)"
  by (simp add: server_fromJSON_def filesByPath_def snapshot_files_def)

text \<open>
  C9, as amended. The client's tree and the server's tree are both built by their
  \<^verbatim>\<open>fromJSON\<close> from the same two snapshots. When every file object of the snapshots has a
  timestamp and an \<^verbatim>\<open>s3_url\<close> that is \<^verbatim>\<open>null\<close> or non-empty, the client's
  \<^verbatim>\<open>getDifferences\<close> and the server's return the same three lists.
\<close>

theorem client_server_diff_agree:
  assumes "\<forall>f \<in> set (snapshot_files a) \<union> set (snapshot_files b). wire_normal f"
  shows "getDifferences (fromJSON now1 a t1) (fromJSON now2 b t2)
       = server_getDifferences (server_fromJSON a) (server_fromJSON b)"
proof -
  have ca: "filesByPath (getAllFiles (fromJSON now1 a t1)) = filesByPath (snapshot_files a)"
    using assms by (simp add: getAllFiles_fromJSON filesByPath_idem)
  have cb: "filesByPath (getAllFiles (fromJSON now2 b t2)) = filesByPath (snapshot_files b)"
    using assms by (simp add: getAllFiles_fromJSON filesByPath_idem)
  have sb: "foldl (\<lambda>m file. AList.update (file_path file) file m) []
              (server_getAllFiles (server_fromJSON b)) = filesByPath (snapshot_files b)"
    using filesByPath_idem [of "snapshot_files b"]
    by (simp add: server_getAllFiles_def tree_files_server_fromJSON filesByPath_def)
  show ?thesis
    by (simp add: getDifferences_def server_getDifferences_def ca cb sb
        tree_files_server_fromJSON server_findAddedModified_eq server_findDeleted_eq)
qed

theorem client_server_diff_agree_witness:
  "wire_normal notes_file \<and> wire_normal todo_file
   \<and> wire_normal (notes_file\<lparr>timestamp := Some ''2024-04-30T09:00:00.000Z''\<rparr>)
   \<and> getDifferences (fromJSON ''2024-05-01T11:00:01.000Z'' server_snapshot newMerkleTree)
                      (fromJSON ''2024-05-01T11:00:02.000Z'' local_snapshot newMerkleTree)
     = server_getDifferences (server_fromJSON server_snapshot) (server_fromJSON local_snapshot)
   \<and> server_getDifferences (server_fromJSON server_snapshot) (server_fromJSON local_snapshot)
     = \<lparr>added = [todo_file], modified = [notes_file], deleted = []\<rparr>"
proof -
  have n: "wire_normal notes_file" "wire_normal todo_file"
    "wire_normal (notes_file\<lparr>timestamp := Some ''2024-04-30T09:00:00.000Z''\<rparr>)"
    by (simp_all add: wire_normal_def notes_file_def todo_file_def truthy_def)
  then have h: "\<forall>f \<in> set (snapshot_files server_snapshot) \<union> set (snapshot_files local_snapshot).
                  wire_normal f"
    by (simp add: snapshot_files_def server_snapshot_def local_snapshot_def)
  have s: "server_getDifferences (server_fromJSON server_snapshot) (server_fromJSON local_snapshot)
     = \<lparr>added = [todo_file], modified = [notes_file], deleted = []\<rparr>"
    by (simp add: server_getDifferences_def server_fromJSON_def server_getAllFiles_def
        server_snapshot_def local_snapshot_def notes_file_def todo_file_def Map_has_def)
  show ?thesis
    using n s client_server_diff_agree [OF h] by blast
qed

text \<open>
  C9 as stated fails on a file object without a timestamp: the client's \<^verbatim>\<open>createFileNode\<close>
  stamps it with the clock, the server keeps it as it is, and the two \<^verbatim>\<open>added\<close> lists
  differ.
\<close>

theorem client_server_diff_counterexample:
  "getDifferences
      (fromJSON ''2024-05-01T10:00:00.000Z''
         \<lparr>rootHash = None, snap_timestamp = ''2024-05-01T09:00:00.000Z'',
          files = Some [bare_file]\<rparr> newMerkleTree)
      (fromJSON ''2024-05-01T10:00:00.000Z''
         \<lparr>rootHash = None, snap_timestamp = ''2024-05-01T09:30:00.000Z'',
          files = Some []\<rparr> newMerkleTree)
   \<noteq> server_getDifferences
      (server_fromJSON \<lparr>rootHash = None, snap_timestamp = ''2024-05-01T09:00:00.000Z'',
                         files = Some [bare_file]\<rparr>)
      (server_fromJSON \<lparr>rootHash = None, snap_timestamp = ''2024-05-01T09:30:00.000Z'',
                         files = Some []\<rparr>)"
  by (simp add: getDifferences_def server_getDifferences_def server_fromJSON_def
      server_getAllFiles_def filesByPath_def bare_file_def tree_eval)

section \<open>POST /diff without a stored tree\<close>

lemma server_findDeleted_of_empty:
  "server_findDeleted xs [] d = d\<lparr>deleted := deleted d @ map snd xs\<rparr>"
  by (induction xs "[] :: (string \<times> file_entry) list" d rule: server_findDeleted.induct)
     (simp_all add: Map_has_def)

text \<open>
  C4, as amended. When no tree is stored for the (user, device) pair, the answer of
  \<^verbatim>\<open>POST /diff\<close> has three empty lists and no server root hash, whatever the snapshot
  of the caller holds. The diff engine with an empty tree as \<open>mine\<close> and the snapshot as
  \<open>theirs\<close> has two empty lists too, but reports every file of the snapshot as deleted:
  absence is not treated as an empty tree.
\<close>

theorem diff_route_without_stored_tree:
  "r_differences (diff_route lookup presign [] localTreeData)
     = \<lparr>e_added = [], e_modified = [], e_deleted = []\<rparr>
   \<and> serverRootHash (diff_route lookup presign [] localTreeData) = None
   \<and> server_getDifferences server_newMerkleTree (server_fromJSON localTreeData)
     = \<lparr>added = [], modified = [],
        deleted = server_getAllFiles (server_fromJSON localTreeData)\<rparr>"
proof -
  have other: "foldl (\<lambda>m file. AList.update (file_path file) file m) []
                 (map snd (tree_files (server_fromJSON localTreeData)))
             = tree_files (server_fromJSON localTreeData)"
    using filesByPath_idem [of "snapshot_files localTreeData"]
    by (simp add: tree_files_server_fromJSON filesByPath_def)
  have engine: "server_getDifferences server_newMerkleTree (server_fromJSON localTreeData)
     = \<lparr>added = [], modified = [],
        deleted = server_getAllFiles (server_fromJSON localTreeData)\<rparr>"
    by (simp add: server_getDifferences_def server_newMerkleTree_def other
        server_findDeleted_of_empty server_getAllFiles_def)
  show ?thesis
    using engine by (simp add: diff_route_def enrichFilesWithFreshUrls_def)
qed

text \<open>
  C4 as stated fails when the snapshot of the caller holds a file: the diff engine, with an
  empty tree as \<open>mine\<close>, reports the file as deleted; the route reports nothing.
\<close>

theorem diff_route_counterexample:
  "e_deleted (r_differences
      (diff_route (\<lambda>h. Inr None) (\<lambda>k. None) [] local_snapshot)) = []
   \<and> deleted (server_getDifferences server_newMerkleTree (server_fromJSON local_snapshot))
       = [notes_file\<lparr>timestamp := Some ''2024-04-30T09:00:00.000Z''\<rparr>]
   \<and> e_deleted (r_differences
      (diff_route (\<lambda>h. Inr None) (\<lambda>k. None) [] local_snapshot))
     \<noteq> deleted (server_getDifferences server_newMerkleTree (server_fromJSON local_snapshot))"
  by (simp add: diff_route_def enrichFilesWithFreshUrls_def server_getDifferences_def
      server_fromJSON_def server_getAllFiles_def server_newMerkleTree_def local_snapshot_def
      notes_file_def Map_has_def)

section \<open>Echo suppression\<close>

lemma disk_markDownloadComplete [simp]: "disk (markDownloadComplete at relPath h s) = disk s"
  by (simp add: markDownloadComplete_def)

text \<open>The callback of the timer leaves the record in place up to 10000 ms after the download.\<close>

lemma expireRecentlyDownloaded_before_ttl:
  "ms at \<le> ms earlier + 10000 \<Longrightarrow>
   expireRecentlyDownloaded at P (markDownloadComplete earlier P H s) = markDownloadComplete earlier P H s"
  by (simp add: expireRecentlyDownloaded_def markDownloadComplete_def)

text \<open>
  C2, as amended. After \<^verbatim>\<open>markDownloadComplete(P, H)\<close>, an add or change event for the
  file of path \<open>P\<close> whose freshly computed hash is \<open>H\<close> changes nothing: no entry is
  queued and the local tree is as it was. When the computed hash is not \<open>H\<close> and the
  ignore predicate does not hold of the file's path, the event is queued for upload: the
  queue holds an entry for \<open>P\<close> with the computed hash, and a run of the queue is scheduled.
\<close>

theorem echo_suppression:
  assumes "eventType = Add \<or> eventType = Change"
    and "path_relative_watch cfg filePath = P"
    and "s1 = markDownloadComplete earlier P H before"
  shows "(calculateFileHash (disk s1) filePath = H \<longrightarrow>
            handleFileChange cfg at filePath eventType s1 = s1)
       \<and> (calculateFileHash (disk s1) filePath \<noteq> H \<and> \<not> shouldIgnoreFile filePath \<longrightarrow>
            map_option q_hash
              (map_of (uploadQueue (handleFileChange cfg at filePath eventType s1)) P)
              = Some (calculateFileHash (disk s1) filePath)
            \<and> (ms at + 1000, ProcessUploadQueue)
                \<in> set (timers (handleFileChange cfg at filePath eventType s1)))"
proof -
  have nd: "P \<notin> downloadingFiles s1"
    using assms(3) by (simp add: markDownloadComplete_def)
  have rd: "recentlyDownloaded s1 P = Some \<lparr>rd_hash = H, rd_timestamp = ms earlier\<rparr>"
    using assms(3) by (simp add: markDownloadComplete_def)
  have same: "calculateFileHash (disk s1) filePath = H \<Longrightarrow>
              handleFileChange cfg at filePath eventType s1 = s1"
    using assms(1,2) nd rd by (auto simp: handleFileChange_def Let_def)
  have queued: "map_option q_hash
              (map_of (uploadQueue (handleFileChange cfg at filePath eventType s1)) P)
              = Some (calculateFileHash (disk s1) filePath)
            \<and> (ms at + 1000, ProcessUploadQueue)
                \<in> set (timers (handleFileChange cfg at filePath eventType s1))"
    if "calculateFileHash (disk s1) filePath \<noteq> H" "\<not> shouldIgnoreFile filePath"
    using that assms(1,2) nd rd
    by (auto simp: handleFileChange_def Let_def queueUpload_def saveMerkleTree_def update_conv')
  show ?thesis
    using same queued by blast
qed

theorem echo_suppression_witness:
  "\<not> shouldIgnoreFile ''/home/u/sync-folder/notes.txt''
   \<and> handleFileChange example_config \<lparr>iso = ''2024-05-01T10:00:31.000Z'', ms = 1714557631000\<rparr>
        ''/home/u/sync-folder/notes.txt'' Change
        (markDownloadComplete \<lparr>iso = ''2024-05-01T10:00:30.000Z'', ms = 1714557630000\<rparr>
           ''notes.txt''
           (Some ''2e1cfa82b035c26cbbbdae632cea070514eb8b773f616aaeaf668e2f0be8f10d'')
           (state_with_file ''/home/u/sync-folder/notes.txt''))
     = markDownloadComplete \<lparr>iso = ''2024-05-01T10:00:30.000Z'', ms = 1714557630000\<rparr>
           ''notes.txt''
           (Some ''2e1cfa82b035c26cbbbdae632cea070514eb8b773f616aaeaf668e2f0be8f10d'')
           (state_with_file ''/home/u/sync-folder/notes.txt'')
   \<and> map_option q_hash
        (map_of (uploadQueue
           (handleFileChange example_config
              \<lparr>iso = ''2024-05-01T10:00:31.000Z'', ms = 1714557631000\<rparr>
              ''/home/u/sync-folder/notes.txt'' Change
              (markDownloadComplete \<lparr>iso = ''2024-05-01T10:00:30.000Z'', ms = 1714557630000\<rparr>
                 ''notes.txt''
                 (Some ''2cf24dba5fb0a30e26e83b2ac5b9e29e1b161e5c1fa7425e73043362938b9824'')
                 (state_with_file ''/home/u/sync-folder/notes.txt''))))
           ''notes.txt'')
       = Some (Some ''2e1cfa82b035c26cbbbdae632cea070514eb8b773f616aaeaf668e2f0be8f10d'')"
proof -
  let ?fp = "''/home/u/sync-folder/notes.txt''"
  let ?earlier = "\<lparr>iso = ''2024-05-01T10:00:30.000Z'', ms = 1714557630000\<rparr>"
  let ?at = "\<lparr>iso = ''2024-05-01T10:00:31.000Z'', ms = 1714557631000\<rparr>"
  let ?same = "Some ''2e1cfa82b035c26cbbbdae632cea070514eb8b773f616aaeaf668e2f0be8f10d''"
  let ?other = "Some ''2cf24dba5fb0a30e26e83b2ac5b9e29e1b161e5c1fa7425e73043362938b9824''"
  have ev: "Change = Add \<or> Change = Change" by simp
  have rel: "path_relative_watch example_config ?fp = ''notes.txt''"
    by (simp add: example_config_def)
  have ign: "\<not> shouldIgnoreFile ?fp"
    by (simp add: shouldIgnoreFile_def basename_def endsWith_def)
  have h: "calculateFileHash (disk (markDownloadComplete ?earlier ''notes.txt'' H
              (state_with_file ?fp))) ?fp = ?same" for H
    by (simp add: calculateFileHash_def state_with_file_def markDownloadComplete_def
        sha256_of_empty_literal)
  have ne: "calculateFileHash (disk (markDownloadComplete ?earlier ''notes.txt'' ?other
              (state_with_file ?fp))) ?fp \<noteq> ?other"
    unfolding h by simp
  show ?thesis
    using ign
      echo_suppression [OF ev rel refl,
        where earlier = ?earlier and H = ?same and before = "state_with_file ?fp" and at = ?at]
      echo_suppression [OF ev rel refl,
        where earlier = ?earlier and H = ?other and before = "state_with_file ?fp" and at = ?at]
      h ne
    by simp
qed

text \<open>
  C2 as stated fails on a path that the ignore predicate matches: \<^verbatim>\<open>debug.log\<close> was
  downloaded with the hash of \<^verbatim>\<open>hello\<close> and now holds other bytes; the change event is
  dropped at the first test of \<^verbatim>\<open>handleFileChange\<close> and nothing is queued.
\<close>

theorem echo_suppression_counterexample:
  "calculateFileHash
      (disk (markDownloadComplete \<lparr>iso = ''2024-05-01T10:00:30.000Z'', ms = 1714557630000\<rparr>
               ''debug.log''
               (Some ''2cf24dba5fb0a30e26e83b2ac5b9e29e1b161e5c1fa7425e73043362938b9824'')
               (state_with_file ''/home/u/sync-folder/debug.log'')))
      ''/home/u/sync-folder/debug.log''
     \<noteq> Some ''2cf24dba5fb0a30e26e83b2ac5b9e29e1b161e5c1fa7425e73043362938b9824''
   \<and> uploadQueue
       (handleFileChange example_config
          \<lparr>iso = ''2024-05-01T10:00:31.000Z'', ms = 1714557631000\<rparr>
          ''/home/u/sync-folder/debug.log'' Change
          (markDownloadComplete \<lparr>iso = ''2024-05-01T10:00:30.000Z'', ms = 1714557630000\<rparr>
             ''debug.log''
             (Some ''2cf24dba5fb0a30e26e83b2ac5b9e29e1b161e5c1fa7425e73043362938b9824'')
             (state_with_file ''/home/u/sync-folder/debug.log''))) = []"
proof -
  have ign: "shouldIgnoreFile ''/home/u/sync-folder/debug.log''"
    by (simp add: shouldIgnoreFile_def basename_def endsWith_def)
  show ?thesis
    using ign
    by (simp add: handleFileChange_def calculateFileHash_def state_with_file_def
        markDownloadComplete_def initial_state_def sha256_of_empty_literal)
qed

section \<open>Downloads\<close>

lemma getFile_addOrUpdateFile:
  "map_option hash (getFile filePath (addOrUpdateFile now filePath m t)) = Some (hash m)"
  by (cases "map_of (leaves t) filePath")
     (simp_all add: getFile_def addOrUpdateFile_def createFileNode_def update_conv'
        MerkleNode_def recalculateHash_def)

text \<open>
  C3, as amended. An entry with an id, whose local file is missing or has another hash, is
  downloaded. When \<^verbatim>\<open>api.downloadFile\<close> returns, the bytes it wrote stay on the disk and
  the entry is put into the local tree under its declared hash, and marked as recently
  downloaded with that hash: the hash of the bytes is not computed. When
  \<^verbatim>\<open>api.downloadFile\<close> throws, the local tree is unchanged.
\<close>

theorem download_records_declared_hash:
  assumes "truthy (file_id fileMetadata)"
    and "calculateFileHash (disk s) (path_join_watch cfg (file_path fileMetadata))
           \<noteq> Some (hash fileMetadata)"
  shows "disk (downloadFileFromServer cfg at (Some bytes) fileMetadata s)
           (path_join_watch cfg (file_path fileMetadata)) = Some bytes
       \<and> map_option hash
           (getFile (path_relative_watch cfg (path_join_watch cfg (file_path fileMetadata)))
              (merkleTree (downloadFileFromServer cfg at (Some bytes) fileMetadata s)))
           = Some (hash fileMetadata)
       \<and> recentlyDownloaded (downloadFileFromServer cfg at (Some bytes) fileMetadata s)
            (path_relative_watch cfg (path_join_watch cfg (file_path fileMetadata)))
           = Some \<lparr>rd_hash = Some (hash fileMetadata), rd_timestamp = ms at\<rparr>
       \<and> merkleTree (downloadFileFromServer cfg at None fileMetadata s) = merkleTree s"
proof -
  obtain fid where fid: "file_id fileMetadata = Some fid"
    using assms(1) by (cases "file_id fileMetadata") (auto simp: truthy_def)
  show ?thesis
    using assms fid
    by (simp add: downloadFileFromServer_def Let_def markDownloadComplete_def
        markAsDownloading_def getFile_addOrUpdateFile)
qed

theorem download_records_declared_hash_witness:
  "truthy (file_id notes_remote)
   \<and> calculateFileHash (disk initial_state)
        (path_join_watch example_config (file_path notes_remote)) = None
   \<and> disk (downloadFileFromServer example_config
              \<lparr>iso = ''2024-05-01T10:00:30.000Z'', ms = 1714557630000\<rparr>
              (Some ''hello'') notes_remote initial_state)
        ''/home/u/sync-folder/notes.txt'' = Some ''hello''
   \<and> map_option hash
        (getFile ''notes.txt''
           (merkleTree (downloadFileFromServer example_config
              \<lparr>iso = ''2024-05-01T10:00:30.000Z'', ms = 1714557630000\<rparr>
              (Some ''hello'') notes_remote initial_state)))
       = Some ''2cf24dba5fb0a30e26e83b2ac5b9e29e1b161e5c1fa7425e73043362938b9824''"
proof -
  have i: "truthy (file_id notes_remote)"
    by (simp add: notes_remote_def truthy_def)
  have n: "calculateFileHash (disk initial_state)
             (path_join_watch example_config (file_path notes_remote)) = None"
    by (simp add: calculateFileHash_def initial_state_def)
  then have h: "calculateFileHash (disk initial_state)
             (path_join_watch example_config (file_path notes_remote))
           \<noteq> Some (hash notes_remote)"
    by simp
  show ?thesis
    using i n download_records_declared_hash [OF i h,
        of "\<lparr>iso = ''2024-05-01T10:00:30.000Z'', ms = 1714557630000\<rparr>" "''hello''"]
    by (simp add: example_config_def notes_remote_def)
qed

text \<open>
  C3 as stated fails: the entry declares the hash of \<^verbatim>\<open>hello\<close> and the download writes
  the bytes \<^verbatim>\<open>empty\<close>. The file on the disk has another hash than the declared one, and
  the local tree, which had no entry for the path, has the entry with the declared hash.
\<close>

theorem download_unverified_counterexample:
  "calculateFileHash
      (disk (downloadFileFromServer example_config
               \<lparr>iso = ''2024-05-01T10:00:30.000Z'', ms = 1714557630000\<rparr>
               (Some ''empty'') notes_remote initial_state))
      ''/home/u/sync-folder/notes.txt''
     = Some ''2e1cfa82b035c26cbbbdae632cea070514eb8b773f616aaeaf668e2f0be8f10d''
   \<and> hash notes_remote = ''2cf24dba5fb0a30e26e83b2ac5b9e29e1b161e5c1fa7425e73043362938b9824''
   \<and> getFile ''notes.txt'' (merkleTree initial_state) = None
   \<and> map_option hash
        (getFile ''notes.txt''
           (merkleTree (downloadFileFromServer example_config
              \<lparr>iso = ''2024-05-01T10:00:30.000Z'', ms = 1714557630000\<rparr>
              (Some ''empty'') notes_remote initial_state)))
       = Some ''2cf24dba5fb0a30e26e83b2ac5b9e29e1b161e5c1fa7425e73043362938b9824''"
  by (simp add: downloadFileFromServer_def Let_def markDownloadComplete_def
      markAsDownloading_def calculateFileHash_def example_config_def initial_state_def
      notes_remote_def tree_eval sha256_of_empty_literal)

section \<open>The sync cycle\<close>

text \<open>
  C6, as amended. \<^verbatim>\<open>performSync\<close> tests no flag: every tick of the interval starts a
  cycle and sends its request for the differences, whether or not earlier cycles are still
  waiting for their answers. After \<open>n\<close> ticks with no answer in between, \<open>n\<close> more cycles
  are active and \<open>n\<close> more requests have been sent.
\<close>

theorem performSync_cycles_overlap:
  "activeSyncs (intervalTicks cfg ats s) = activeSyncs s + length ats
   \<and> length (outbox (intervalTicks cfg ats s)) = length (outbox s) + length ats"
  by (induction ats arbitrary: s) (simp_all add: intervalTick_def performSync_request_def)

text \<open>
  C6 as stated fails: the client starts its periodic sync and the interval ticks before the
  server has answered. Two cycles are active, and the second has sent a request of its own.
\<close>

theorem performSync_busy_flag_counterexample:
  "activeSyncs (intervalTick example_config \<lparr>iso = ''2024-05-01T10:00:30.000Z'', ms = 1714557630000\<rparr>
      (startPeriodicSync example_config \<lparr>iso = ''2024-05-01T10:00:00.000Z'', ms = 1714557600000\<rparr>
         initial_state)) = 2
   \<and> outbox (intervalTick example_config \<lparr>iso = ''2024-05-01T10:00:30.000Z'', ms = 1714557630000\<rparr>
      (startPeriodicSync example_config \<lparr>iso = ''2024-05-01T10:00:00.000Z'', ms = 1714557600000\<rparr>
         initial_state))
     = [GetMerkleTreeDifferences ''laptop''
          \<lparr>rootHash = None, snap_timestamp = ''2024-05-01T10:00:00.000Z'', files = Some []\<rparr>,
        GetMerkleTreeDifferences ''laptop''
          \<lparr>rootHash = None, snap_timestamp = ''2024-05-01T10:00:30.000Z'', files = Some []\<rparr>]"
  by (simp add: intervalTick_def startPeriodicSync_def performSync_request_def
      example_config_def initial_state_def tree_eval)

end
